theory Spec2Isabelle
  imports Main "HOL-Library.Word" "HOL-Library.AList" "HOL-Library.Char_ord"
    "HOL-Library.List_Lexorder"
begin

section \<open>Python values used by app.py\<close>

text \<open>
  A Python \<open>str\<close> is modelled as a \<open>string\<close>: a list of code points below 256.
  A \<open>bytes\<close> object is a list of 8-bit words. The argument \<open>question_number\<close> of
  \<open>save_video\<close> reaches the function either as an \<open>int\<close> or as a \<open>str\<close> (the upload
  handler always passes the form field, a \<open>str\<close>).
\<close>

type_synonym byte = "8 word"
type_synonym bytes = "byte list"

datatype pyval = PInt int | PStr string

subsection \<open>Decimal formatting\<close>

definition digit_char :: "nat \<Rightarrow> char" where
  "digit_char d = ''0123456789'' ! d"

function str_nat :: "nat \<Rightarrow> string" where
  "str_nat n = (if n < 10 then [digit_char n] else str_nat (n div 10) @ [digit_char (n mod 10)])"
  by pat_completeness auto
termination
  by (relation "measure id") auto

declare str_nat.simps [simp del]

definition str_int :: "int \<Rightarrow> string" where
  "str_int i = (if i < 0 then CHR ''-'' # str_nat (nat (- i)) else str_nat (nat i))"

text \<open>\<open>'%02d'\<close> and friends: pad with zeros on the left up to a width.\<close>

definition zfill :: "nat \<Rightarrow> string \<Rightarrow> string" where
  "zfill w s = replicate (w - length s) CHR ''0'' @ s"

text \<open>What an f-string writes for \<open>{question_number}\<close>.\<close>

fun format_val :: "pyval \<Rightarrow> string" where
  "format_val (PInt i) = str_int i"
| "format_val (PStr s) = s"

text \<open>
  The interpreter (Python 3.11) converts between \<open>int\<close> and \<open>str\<close> up to this number of
  decimal digits and raises \<open>ValueError\<close> beyond it.
\<close>

definition int_max_str_digits :: nat where
  "int_max_str_digits = 4300"

subsection \<open>Exceptions\<close>

text \<open>
  The exceptions the modelled operations raise. All of them are subclasses of
  \<open>Exception\<close>: \<open>OSError\<close> with its error number (\<open>FileNotFoundError\<close> is \<open>ENOENT\<close>,
  \<open>NotADirectoryError\<close> is \<open>ENOTDIR\<close>, \<open>FileExistsError\<close> is \<open>EEXIST\<close>,
  \<open>IsADirectoryError\<close> is \<open>EISDIR\<close>, and \<open>ENAMETOOLONG\<close> is error 36, "File name too
  long"), and the four \<open>ValueError\<close>s: an embedded null byte in a path, an invalid
  literal for \<open>int()\<close>, a conversion between \<open>int\<close> and \<open>str\<close> of more digits than the
  interpreter allows, and \<open>relative_to\<close> on a path outside its argument.
\<close>

datatype errno = ENOENT | ENOTDIR | EEXIST | EISDIR | ENAMETOOLONG

datatype exn =
    OSError errno
  | ValueError_null
  | ValueError_int string
  | ValueError_digits
  | ValueError_subpath

subsection \<open>\<open>int(question_number)\<close>\<close>

text \<open>
  \<open>int\<close> of a \<open>str\<close>, base 10: white space is stripped on both sides, then an optional
  sign, then decimal digits, single underscores allowed between two digits. Among the
  code points below 256 the white space accepted is 9 to 13, 32, 133 and 160, and the
  decimal digits are \<open>0\<close> to \<open>9\<close>.
\<close>

definition int_space :: "char \<Rightarrow> bool" where
  "int_space c = ((of_char c :: nat) \<in> {9, 10, 11, 12, 13, 32, 133, 160})"

definition is_digit :: "char \<Rightarrow> bool" where
  "is_digit c = (48 \<le> (of_char c :: nat) \<and> (of_char c :: nat) \<le> 57)"

definition digit_val :: "char \<Rightarrow> nat" where
  "digit_val c = of_char c - 48"

fun digits_from :: "nat \<Rightarrow> string \<Rightarrow> nat option" where
  "digits_from acc [] = Some acc"
| "digits_from acc [c] = (if is_digit c then Some (10 * acc + digit_val c) else None)"
| "digits_from acc (c # d # ds) =
     (if is_digit c then digits_from (10 * acc + digit_val c) (d # ds)
      else if c = CHR ''_'' \<and> is_digit d then digits_from (10 * acc + digit_val d) ds
      else None)"

definition strip_space :: "string \<Rightarrow> string" where
  "strip_space s = rev (dropWhile int_space (rev (dropWhile int_space s)))"

definition int_literal :: "string \<Rightarrow> int option" where
  "int_literal s =
     (case strip_space s of
        [] \<Rightarrow> None
      | c # r \<Rightarrow>
          let neg = (c = CHR ''-'');
              body = (if c = CHR ''-'' \<or> c = CHR ''+'' then r else c # r)
          in (case body of
                [] \<Rightarrow> None
              | d # ds \<Rightarrow>
                  if is_digit d
                  then map_option (\<lambda>n. if neg then - int n else int n)
                         (digits_from (digit_val d) ds)
                  else None))"

text \<open>
  The digits are counted before the rest of the literal is looked at: the limit is
  exceeded when the digits and underscores after the sign start a well-formed run of
  more than the allowed number of digits, whatever follows.
\<close>

definition too_many_digits :: "string \<Rightarrow> bool" where
  "too_many_digits s =
     (let t = dropWhile int_space s;
          body = (case t of [] \<Rightarrow> [] | c # r \<Rightarrow> if c = CHR ''-'' \<or> c = CHR ''+'' then r else t);
          run = takeWhile (\<lambda>c. is_digit c \<or> c = CHR ''_'') body
      in (case run of
            [] \<Rightarrow> False
          | d # ds \<Rightarrow> is_digit d \<and> digits_from (digit_val d) ds \<noteq> None
                       \<and> length (filter is_digit run) > int_max_str_digits))"

fun py_int :: "pyval \<Rightarrow> exn + int" where
  "py_int (PInt i) = Inr i"
| "py_int (PStr s) =
     (if too_many_digits s then Inl ValueError_digits
      else (case int_literal s of None \<Rightarrow> Inl (ValueError_int s) | Some i \<Rightarrow> Inr i))"

text \<open>
  Formatting an \<open>int\<close> in an f-string raises when it has too many digits; a \<open>str\<close> is
  written as it is.
\<close>

fun format_error :: "pyval \<Rightarrow> exn option" where
  "format_error (PInt i) =
     (if length (str_nat (nat \<bar>i\<bar>)) > int_max_str_digits then Some ValueError_digits else None)"
| "format_error (PStr s) = None"

subsection \<open>\<open>datetime.now()\<close>\<close>

text \<open>
  A reading of the local clock. Each call of \<open>datetime.now()\<close> in the source is a
  parameter of the function that makes it, in the order of the calls.
\<close>

record datetime =
  year :: nat
  month :: nat
  day :: nat
  hour :: nat
  minute :: nat
  second :: nat
  microsecond :: nat

text \<open>
  \<open>strftime('%Y-%m-%d')\<close>, \<open>strftime('%H-%M-%S')\<close> and \<open>isoformat()\<close>. The C library
  writes the year of \<open>%Y\<close> without padding; \<open>isoformat\<close> pads it to four digits.
\<close>

definition strftime_date :: "datetime \<Rightarrow> string" where
  "strftime_date t =
     str_nat (year t) @ ''-'' @ zfill 2 (str_nat (month t)) @ ''-'' @
     zfill 2 (str_nat (day t))"

definition strftime_time :: "datetime \<Rightarrow> string" where
  "strftime_time t =
     zfill 2 (str_nat (hour t)) @ ''-'' @ zfill 2 (str_nat (minute t)) @ ''-'' @
     zfill 2 (str_nat (second t))"

definition isoformat :: "datetime \<Rightarrow> string" where
  "isoformat t =
     zfill 4 (str_nat (year t)) @ ''-'' @ zfill 2 (str_nat (month t)) @ ''-'' @
     zfill 2 (str_nat (day t)) @ ''T'' @
     zfill 2 (str_nat (hour t)) @ '':'' @ zfill 2 (str_nat (minute t)) @ '':'' @
     zfill 2 (str_nat (second t)) @
     (if microsecond t = 0 then [] else ''.'' @ zfill 6 (str_nat (microsecond t)))"

section \<open>Paths (pathlib)\<close>

text \<open>
  A path of pathlib is absolute here: its root, which is \<open>//\<close> when the string it was
  made from begins with exactly two slashes and \<open>/\<close> otherwise, and its components.
  Joining a string to a path (\<open>p / s\<close>) splits the string at \<open>/\<close>, drops empty
  components and \<open>.\<close>, keeps \<open>..\<close>, and starts again from the root of the string when
  the string begins with \<open>/\<close>.
\<close>

type_synonym path = "string list"

datatype ppath = PPath (two_slashes: bool) (parts: path)

fun split_on :: "char \<Rightarrow> string \<Rightarrow> string list" where
  "split_on d [] = [[]]"
| "split_on d (c # cs) =
     (if c = d then [] # split_on d cs
      else (case split_on d cs of [] \<Rightarrow> [[c]] | x # xs \<Rightarrow> (c # x) # xs))"

definition parse_parts :: "string \<Rightarrow> path" where
  "parse_parts s = filter (\<lambda>c. c \<noteq> [] \<and> c \<noteq> ''.'') (split_on CHR ''/'' s)"

definition exactly_two_slashes :: "string \<Rightarrow> bool" where
  "exactly_two_slashes s = (take 2 s = ''//'' \<and> take 3 s \<noteq> ''///'')"

definition joinpath :: "ppath \<Rightarrow> string \<Rightarrow> ppath" where
  "joinpath p s = (case s of
      [] \<Rightarrow> p
    | c # _ \<Rightarrow>
        if c = CHR ''/'' then PPath (exactly_two_slashes s) (parse_parts s)
        else PPath (two_slashes p) (parts p @ parse_parts s))"

text \<open>
  The path of an entry of a directory, as \<open>iterdir\<close> and \<open>glob\<close> make it, and the
  parent of a path; the parent of a root is the root.
\<close>

definition child :: "ppath \<Rightarrow> string \<Rightarrow> ppath" where
  "child p name = PPath (two_slashes p) (parts p @ [name])"

definition parent :: "ppath \<Rightarrow> ppath" where
  "parent p = PPath (two_slashes p) (butlast (parts p))"

text \<open>
  \<open>p.relative_to(base)\<close> compares the roots and the components, not the files;
  \<open>str\<close> of an absolute and of a relative path.
\<close>

definition relative_to :: "ppath \<Rightarrow> ppath \<Rightarrow> exn + path" where
  "relative_to p base =
     (if two_slashes p = two_slashes base \<and> take (length (parts base)) (parts p) = parts base
      then Inr (drop (length (parts base)) (parts p))
      else Inl ValueError_subpath)"

fun join_slash :: "string list \<Rightarrow> string" where
  "join_slash [] = []"
| "join_slash [x] = x"
| "join_slash (x # y # ys) = x @ ''/'' @ join_slash (y # ys)"

definition str_abs :: "ppath \<Rightarrow> string" where
  "str_abs p = (if two_slashes p then ''//'' else ''/'') @ join_slash (parts p)"

definition str_rel :: "path \<Rightarrow> string" where
  "str_rel p = (if p = [] then ''.'' else join_slash p)"

section \<open>UTF-8\<close>

text \<open>
  The encoding of a \<open>str\<close> for the operating system and for a text file opened with
  \<open>encoding='utf-8'\<close>: one byte for a code point below 128, two for the others below
  256. The decoder reads these two forms and nothing else.
\<close>

definition utf8_char :: "char \<Rightarrow> bytes" where
  "utf8_char c =
     (let n = (of_char c :: nat) in
      if n < 128 then [of_nat n] else [of_nat (192 + n div 64), of_nat (128 + n mod 64)])"

definition utf8_encode :: "string \<Rightarrow> bytes" where
  "utf8_encode s = concat (map utf8_char s)"

fun utf8_decode :: "bytes \<Rightarrow> string option" where
  "utf8_decode [] = Some []"
| "utf8_decode [b] = (if unat b < 128 then Some [char_of (unat b)] else None)"
| "utf8_decode (b # b2 # bs) =
     (if unat b < 128 then map_option (\<lambda>s. char_of (unat b) # s) (utf8_decode (b2 # bs))
      else if (unat b = 194 \<or> unat b = 195) \<and> 128 \<le> unat b2 \<and> unat b2 < 192
      then map_option (\<lambda>s. char_of ((unat b - 192) * 64 + (unat b2 - 128)) # s) (utf8_decode bs)
      else None)"

section \<open>The file system\<close>

text \<open>
  The file system is the list of its entries, each under the list of the names that
  lead to it from the root, without \<open>..\<close>; the order of the list is the order in which a
  directory is enumerated. The root directory always exists. There are no symbolic
  links and no permissions, the disk is never full, and a write either happens as a
  whole or not at all. As on Linux a name has at most 255 bytes and a path, as the
  string given to the operating system, at most 4095.
\<close>

datatype entry = Dir | File bytes

type_synonym fs = "(path \<times> entry) list"

definition lookup :: "fs \<Rightarrow> path \<Rightarrow> entry option" where
  "lookup fs p = (if p = [] then Some Dir else map_of fs p)"

definition name_max :: nat where
  "name_max = 255"

definition path_max :: nat where
  "path_max = 4096"

text \<open>
  How the operating system follows the components of a path from a directory \<open>cur\<close>:
  every component is looked up in an existing directory, \<open>..\<close> goes to the parent, and
  a name that is too long is refused by the directory it is looked up in.
\<close>

fun walk :: "fs \<Rightarrow> path \<Rightarrow> string list \<Rightarrow> errno + path" where
  "walk fs cur [] = Inr cur"
| "walk fs cur (c # cs) =
     (case lookup fs cur of
        None \<Rightarrow> Inl ENOENT
      | Some (File _) \<Rightarrow> Inl ENOTDIR
      | Some Dir \<Rightarrow>
          if c = ''..'' then walk fs (butlast cur) cs
          else if length (utf8_encode c) > name_max then Inl ENAMETOOLONG
          else walk fs (cur @ [c]) cs)"

definition has_nul :: "ppath \<Rightarrow> bool" where
  "has_nul p = (\<exists>c \<in> set (parts p). CHR 0x00 \<in> set c)"

text \<open>
  A system call on a path: Python refuses a null byte, the kernel a string of
  \<open>path_max\<close> bytes or more, and then the components are followed.
\<close>

definition resolve :: "fs \<Rightarrow> ppath \<Rightarrow> exn + path" where
  "resolve fs p =
     (if has_nul p then Inl ValueError_null
      else if length (utf8_encode (str_abs p)) \<ge> path_max then Inl (OSError ENAMETOOLONG)
      else (case walk fs [] (parts p) of Inl e \<Rightarrow> Inl (OSError e) | Inr q \<Rightarrow> Inr q))"

text \<open>
  \<open>Path.exists()\<close> and \<open>Path.is_dir()\<close> call \<open>stat\<close>. They answer \<open>False\<close> on a
  \<open>ValueError\<close> and on the errors \<open>ENOENT\<close> and \<open>ENOTDIR\<close>, and raise every other
  \<open>OSError\<close> again.
\<close>

definition ignore_error :: "errno \<Rightarrow> bool" where
  "ignore_error e = (e = ENOENT \<or> e = ENOTDIR)"

definition path_exists :: "fs \<Rightarrow> ppath \<Rightarrow> exn + bool" where
  "path_exists fs p =
     (case resolve fs p of
        Inl (OSError e) \<Rightarrow> if ignore_error e then Inr False else Inl (OSError e)
      | Inl _ \<Rightarrow> Inr False
      | Inr q \<Rightarrow> Inr (lookup fs q \<noteq> None))"

definition path_is_dir :: "fs \<Rightarrow> ppath \<Rightarrow> exn + bool" where
  "path_is_dir fs p =
     (case resolve fs p of
        Inl (OSError e) \<Rightarrow> if ignore_error e then Inr False else Inl (OSError e)
      | Inl _ \<Rightarrow> Inr False
      | Inr q \<Rightarrow> Inr (lookup fs q = Some Dir))"

text \<open>
  An operation that changes the file system returns the exception it raised, if any,
  together with the file system it left behind.
\<close>

definition os_mkdir :: "fs \<Rightarrow> ppath \<Rightarrow> exn option \<times> fs" where
  "os_mkdir fs p =
     (case resolve fs p of
        Inl e \<Rightarrow> (Some e, fs)
      | Inr q \<Rightarrow>
          (case lookup fs q of
             Some _ \<Rightarrow> (Some (OSError EEXIST), fs)
           | None \<Rightarrow> (None, fs @ [(q, Dir)])))"

text \<open>
  \<open>Path.mkdir(parents=False, exist_ok=True)\<close>: a missing parent is raised, any other
  \<open>OSError\<close> is swallowed when the path is a directory; \<open>is_dir\<close> is called in the
  handler and may raise in its turn.
\<close>

definition mkdir_exist_ok :: "fs \<Rightarrow> ppath \<Rightarrow> exn option \<times> fs" where
  "mkdir_exist_ok fs p =
     (case os_mkdir fs p of
        (None, fs') \<Rightarrow> (None, fs')
      | (Some (OSError ENOENT), fs') \<Rightarrow> (Some (OSError ENOENT), fs')
      | (Some (OSError e), fs') \<Rightarrow>
          (case path_is_dir fs' p of
             Inl e' \<Rightarrow> (Some e', fs')
           | Inr True \<Rightarrow> (None, fs')
           | Inr False \<Rightarrow> (Some (OSError e), fs'))
      | (Some e, fs') \<Rightarrow> (Some e, fs'))"

text \<open>
  \<open>Path.mkdir(parents=True, exist_ok=True)\<close>: on a missing parent the parent (the path
  without its last component) is made in the same way first, then the path itself.
\<close>

function mkdir_parents :: "fs \<Rightarrow> ppath \<Rightarrow> exn option \<times> fs" where
  "mkdir_parents fs p =
     (case os_mkdir fs p of
        (None, fs') \<Rightarrow> (None, fs')
      | (Some (OSError ENOENT), fs') \<Rightarrow>
          if parts p = [] then (Some (OSError ENOENT), fs')
          else (case mkdir_parents fs' (parent p) of
                  (Some e, fs1) \<Rightarrow> (Some e, fs1)
                | (None, fs1) \<Rightarrow> mkdir_exist_ok fs1 p)
      | (Some (OSError e), fs') \<Rightarrow>
          (case path_is_dir fs' p of
             Inl e' \<Rightarrow> (Some e', fs')
           | Inr True \<Rightarrow> (None, fs')
           | Inr False \<Rightarrow> (Some (OSError e), fs'))
      | (Some e, fs') \<Rightarrow> (Some e, fs'))"
  by pat_completeness auto
termination
  by (relation "measure (\<lambda>(fs, p). length (parts p))") (auto simp: parent_def)

declare mkdir_parents.simps [simp del]

text \<open>
  \<open>open(p, 'wb')\<close> or \<open>open(p, 'w')\<close>, one \<open>write\<close>, and the close: the file is created or
  replaced by the data written.
\<close>

definition write_file :: "fs \<Rightarrow> ppath \<Rightarrow> bytes \<Rightarrow> exn option \<times> fs" where
  "write_file fs p data =
     (case resolve fs p of
        Inl e \<Rightarrow> (Some e, fs)
      | Inr q \<Rightarrow>
          (case lookup fs q of
             Some Dir \<Rightarrow> (Some (OSError EISDIR), fs)
           | _ \<Rightarrow> (None, AList.update q (File data) fs)))"

text \<open>The names in a directory, in the order of enumeration.\<close>

definition children :: "fs \<Rightarrow> path \<Rightarrow> string list" where
  "children fs q = map (last \<circ> fst) (filter (\<lambda>(k, e). k \<noteq> [] \<and> butlast k = q) fs)"

text \<open>
  \<open>Path.iterdir()\<close> raises on a path that is not a directory. \<open>Path.glob('*' + suffix)\<close>
  asks \<open>is_dir\<close> first and yields nothing for a path that is not a directory; for a
  directory it yields the entries whose names end with the suffix, of whatever kind.
\<close>

definition iterdir :: "fs \<Rightarrow> ppath \<Rightarrow> exn + string list" where
  "iterdir fs p =
     (case resolve fs p of
        Inl e \<Rightarrow> Inl e
      | Inr q \<Rightarrow>
          (case lookup fs q of
             None \<Rightarrow> Inl (OSError ENOENT)
           | Some (File _) \<Rightarrow> Inl (OSError ENOTDIR)
           | Some Dir \<Rightarrow> Inr (children fs q)))"

definition ends_with :: "string \<Rightarrow> string \<Rightarrow> bool" where
  "ends_with suffix name = (length suffix \<le> length name \<and> drop (length name - length suffix) name = suffix)"

definition glob_suffix :: "fs \<Rightarrow> ppath \<Rightarrow> string \<Rightarrow> exn + string list" where
  "glob_suffix fs p suffix =
     (case path_is_dir fs p of
        Inl e \<Rightarrow> Inl e
      | Inr False \<Rightarrow> Inr []
      | Inr True \<Rightarrow>
          (case iterdir fs p of
             Inl e \<Rightarrow> Inl e
           | Inr names \<Rightarrow> Inr (filter (ends_with suffix) names)))"

text \<open>
  \<open>Path.stat().st_size\<close>: the length of a file. What a directory reports is up to the
  file system and is the parameter \<open>dir_size\<close>.
\<close>

definition st_size :: "nat \<Rightarrow> fs \<Rightarrow> ppath \<Rightarrow> exn + nat" where
  "st_size dir_size fs p =
     (case resolve fs p of
        Inl e \<Rightarrow> Inl e
      | Inr q \<Rightarrow>
          (case lookup fs q of
             None \<Rightarrow> Inl (OSError ENOENT)
           | Some Dir \<Rightarrow> Inr dir_size
           | Some (File b) \<Rightarrow> Inr (length b)))"

section \<open>The metadata record and its JSON text\<close>

record metadata =
  md_session_id :: string
  md_question_number :: int
  md_question_text :: string
  md_filename :: string
  md_timestamp :: string
  md_file_path :: string
  md_file_size :: nat

text \<open>
  \<open>json.dump(metadata, f, ensure_ascii=False, indent=2)\<close> into a file opened with
  \<open>encoding='utf-8'\<close>. Inside a JSON string the quote, the backslash and the control
  characters below 32 are escaped and every other character is written as it is.
\<close>

definition hex_char :: "nat \<Rightarrow> char" where
  "hex_char d = ''0123456789abcdef'' ! d"

definition json_escape :: "char \<Rightarrow> string" where
  "json_escape c =
     (let n = (of_char c :: nat) in
      if n = 34 then [CHR 0x5C, CHR 0x22]
      else if n = 92 then [CHR 0x5C, CHR 0x5C]
      else if n = 10 then [CHR 0x5C, CHR ''n'']
      else if n = 13 then [CHR 0x5C, CHR ''r'']
      else if n = 9 then [CHR 0x5C, CHR ''t'']
      else if n = 8 then [CHR 0x5C, CHR ''b'']
      else if n = 12 then [CHR 0x5C, CHR ''f'']
      else if n < 32 then [CHR 0x5C, CHR ''u'', CHR ''0'', CHR ''0'', hex_char (n div 16), hex_char (n mod 16)]
      else [c])"

definition json_str :: "string \<Rightarrow> string" where
  "json_str s = [CHR 0x22] @ concat (map json_escape s) @ [CHR 0x22]"

definition json_member :: "string \<Rightarrow> string \<Rightarrow> string" where
  "json_member k v = [CHR 0x0A] @ ''  '' @ json_str k @ '': '' @ v"

definition json_dump :: "metadata \<Rightarrow> string" where
  "json_dump m =
     ''{'' @
     json_member ''session_id'' (json_str (md_session_id m)) @ '','' @
     json_member ''question_number'' (str_int (md_question_number m)) @ '','' @
     json_member ''question_text'' (json_str (md_question_text m)) @ '','' @
     json_member ''filename'' (json_str (md_filename m)) @ '','' @
     json_member ''timestamp'' (json_str (md_timestamp m)) @ '','' @
     json_member ''file_path'' (json_str (md_file_path m)) @ '','' @
     json_member ''file_size'' (str_nat (md_file_size m)) @
     [CHR 0x0A] @ ''}''"

subsection \<open>Reading a metadata file back\<close>

text \<open>
  What \<open>json.load\<close> makes of a file opened with \<open>encoding='utf-8'\<close>, for the JSON texts
  that are one object whose values are strings and integers: the dictionary, as the
  list of its keys and values in the order of the text, a repeated key keeping its
  place and taking the later value. No program of the repository reads the metadata
  files; the reader says what a metadata file records. Every other text, and a string
  with a code point above 255, gives \<open>None\<close>.
\<close>

datatype json_value = JStr string | JInt int

definition json_space :: "char \<Rightarrow> bool" where
  "json_space c = (c = CHR '' '' \<or> c = CHR 0x09 \<or> c = CHR 0x0A \<or> c = CHR 0x0D)"

definition skip_space :: "string \<Rightarrow> string" where
  "skip_space s = dropWhile json_space s"

definition hex_val :: "char \<Rightarrow> nat option" where
  "hex_val c =
     (let n = (of_char c :: nat) in
      if 48 \<le> n \<and> n \<le> 57 then Some (n - 48)
      else if 97 \<le> n \<and> n \<le> 102 then Some (n - 87)
      else if 65 \<le> n \<and> n \<le> 70 then Some (n - 55)
      else None)"

definition hex4 :: "char \<Rightarrow> char \<Rightarrow> char \<Rightarrow> char \<Rightarrow> nat option" where
  "hex4 a b c d =
     (case (hex_val a, hex_val b, hex_val c, hex_val d) of
        (Some w, Some x, Some y, Some z) \<Rightarrow> Some (((w * 16 + x) * 16 + y) * 16 + z)
      | _ \<Rightarrow> None)"

definition unescape :: "char \<Rightarrow> char option" where
  "unescape e =
     (if e = CHR 0x22 then Some (CHR 0x22)
      else if e = CHR 0x5C then Some (CHR 0x5C)
      else if e = CHR ''/'' then Some (CHR ''/'')
      else if e = CHR ''b'' then Some (CHR 0x08)
      else if e = CHR ''f'' then Some (CHR 0x0C)
      else if e = CHR ''n'' then Some (CHR 0x0A)
      else if e = CHR ''r'' then Some (CHR 0x0D)
      else if e = CHR ''t'' then Some (CHR 0x09)
      else None)"

text \<open>A string, read from behind its opening quote: the string and what follows it.\<close>

fun read_string :: "string \<Rightarrow> (string \<times> string) option" where
  "read_string [] = None"
| "read_string [c] = (if c = CHR 0x22 then Some ([], []) else None)"
| "read_string (c # e # r) =
     (if c = CHR 0x22 then Some ([], e # r)
      else if c = CHR 0x5C then
        (if e = CHR ''u'' then
           (case r of
              h1 # h2 # h3 # h4 # r' \<Rightarrow>
                (case hex4 h1 h2 h3 h4 of
                   None \<Rightarrow> None
                 | Some n \<Rightarrow>
                     if n < 256
                     then map_option (\<lambda>(s, rest). (char_of n # s, rest)) (read_string r')
                     else None)
            | _ \<Rightarrow> None)
         else (case unescape e of
                 None \<Rightarrow> None
               | Some ch \<Rightarrow> map_option (\<lambda>(s, rest). (ch # s, rest)) (read_string r)))
      else if (of_char c :: nat) < 32 then None
      else map_option (\<lambda>(s, rest). (c # s, rest)) (read_string (e # r)))"

text \<open>
  An integer: an optional minus sign and digits without a leading zero, not followed
  by a fraction or an exponent.
\<close>

definition digits_value :: "string \<Rightarrow> nat" where
  "digits_value ds = foldl (\<lambda>a c. 10 * a + digit_val c) 0 ds"

definition read_int :: "string \<Rightarrow> (int \<times> string) option" where
  "read_int s =
     (let neg = (s \<noteq> [] \<and> hd s = CHR ''-'');
          t = (if neg then tl s else s);
          ds = takeWhile is_digit t;
          rest = dropWhile is_digit t
      in if ds = [] \<or> (length ds > 1 \<and> hd ds = CHR ''0'')
            \<or> (rest \<noteq> [] \<and> (hd rest = CHR ''.'' \<or> hd rest = CHR ''e'' \<or> hd rest = CHR ''E''))
         then None
         else Some (if neg then - int (digits_value ds) else int (digits_value ds), rest))"

definition read_value :: "string \<Rightarrow> (json_value \<times> string) option" where
  "read_value s =
     (case s of
        [] \<Rightarrow> None
      | c # r \<Rightarrow>
          if c = CHR 0x22 then map_option (\<lambda>(x, rest). (JStr x, rest)) (read_string r)
          else map_option (\<lambda>(i, rest). (JInt i, rest)) (read_int s))"

text \<open>
  One member \<open>"key": value\<close>, read from the quote of its key, and the members of an
  object up to its closing brace. The number of members still to be read is bounded by
  the length of the text, which is the fuel of the loop.
\<close>

definition read_member :: "string \<Rightarrow> ((string \<times> json_value) \<times> string) option" where
  "read_member s =
     (case s of
        [] \<Rightarrow> None
      | c # r \<Rightarrow>
          if c \<noteq> CHR 0x22 then None
          else (case read_string r of
                  None \<Rightarrow> None
                | Some (k, r1) \<Rightarrow>
                    (case skip_space r1 of
                       [] \<Rightarrow> None
                     | c1 # r2 \<Rightarrow>
                         if c1 \<noteq> CHR '':'' then None
                         else (case read_value (skip_space r2) of
                                 None \<Rightarrow> None
                               | Some (v, r3) \<Rightarrow> Some ((k, v), skip_space r3)))))"

fun read_members ::
  "nat \<Rightarrow> (string \<times> json_value) list \<Rightarrow> string
     \<Rightarrow> ((string \<times> json_value) list \<times> string) option" where
  "read_members 0 acc s = None"
| "read_members (Suc fuel) acc s =
     (case read_member (skip_space s) of
        None \<Rightarrow> None
      | Some ((k, v), r) \<Rightarrow>
          (case r of
             [] \<Rightarrow> None
           | c # r' \<Rightarrow>
               if c = CHR '','' then read_members fuel (AList.update k v acc) r'
               else if c = CHR ''}'' then Some (AList.update k v acc, r')
               else None))"

definition json_loads :: "string \<Rightarrow> (string \<times> json_value) list option" where
  "json_loads s =
     (case skip_space s of
        [] \<Rightarrow> None
      | c # r \<Rightarrow>
          if c \<noteq> CHR ''{'' then None
          else (case skip_space r of
                  [] \<Rightarrow> None
                | c' # r' \<Rightarrow>
                    if c' = CHR ''}'' then (if skip_space r' = [] then Some [] else None)
                    else (case read_members (length r) [] r of
                            None \<Rightarrow> None
                          | Some (ms, rest) \<Rightarrow> if skip_space rest = [] then Some ms else None)))"

definition json_load :: "bytes \<Rightarrow> (string \<times> json_value) list option" where
  "json_load b = (case utf8_decode b of None \<Rightarrow> None | Some s \<Rightarrow> json_loads s)"

section \<open>LocalVideoStorage\<close>

text \<open>
  The storage object holds \<open>base_path\<close>, the first parameter of its methods here. A
  method that can raise returns the exception or its value, and the file system it
  left behind. The calls of the logger have no effect on what is modelled.
\<close>

definition create_session_folder ::
  "ppath \<Rightarrow> datetime \<Rightarrow> string \<Rightarrow> fs \<Rightarrow> (exn + ppath) \<times> fs" where
  "create_session_folder base_path now session_id fs =
     (let current_date = strftime_date now;
          session_folder = joinpath (joinpath base_path current_date) session_id
      in (case mkdir_parents fs session_folder of
            (Some e, fs') \<Rightarrow> (Inl e, fs')
          | (None, fs') \<Rightarrow> (Inr session_folder, fs')))"

text \<open>
  The result of \<open>save_video\<close>: the dictionary with \<open>success: True\<close>, or the one with
  \<open>success: False\<close> and \<open>error: str(e)\<close>. The text of an error is kept as the exception
  it is the \<open>str\<close> of, or as the fixed message of \<open>get_session_info\<close> for a session that
  does not exist.
\<close>

datatype error_text = Str_of exn | Session_not_found

datatype save_result =
    Save_ok (res_file_path: string) (res_absolute_path: string) (res_metadata: metadata)
  | Save_failed (res_error: error_text)

fun save_success :: "save_result \<Rightarrow> bool" where
  "save_success (Save_ok _ _ _) = True"
| "save_success (Save_failed _) = False"

definition video_filename :: "pyval \<Rightarrow> string \<Rightarrow> string" where
  "video_filename qnum ts =
     ''question_'' @ format_val qnum @ ''_'' @ ts @ ''.webm''"

definition metadata_filename :: "pyval \<Rightarrow> string" where
  "metadata_filename qnum = ''question_'' @ format_val qnum @ ''_metadata.json''"

text \<open>
  The body of the \<open>try\<close> of \<open>save_video\<close>. The three clock readings are those of
  \<open>create_session_folder\<close>, of the file name and of the metadata, in this order.
\<close>

definition save_video_body ::
  "ppath \<Rightarrow> datetime \<Rightarrow> datetime \<Rightarrow> datetime \<Rightarrow> bytes \<Rightarrow> string \<Rightarrow> pyval \<Rightarrow> string \<Rightarrow> fs
     \<Rightarrow> (exn + save_result) \<times> fs" where
  "save_video_body base_path now1 now2 now3 video_data sid qnum qtext fs =
     (case create_session_folder base_path now1 sid fs of
        (Inl e, fs1) \<Rightarrow> (Inl e, fs1)
      | (Inr session_folder, fs1) \<Rightarrow>
          (case format_error qnum of
             Some e \<Rightarrow> (Inl e, fs1)
           | None \<Rightarrow>
               let fname = video_filename qnum (strftime_time now2);
                   fpath = joinpath session_folder fname
               in (case write_file fs1 fpath video_data of
                     (Some e, fs2) \<Rightarrow> (Inl e, fs2)
                   | (None, fs2) \<Rightarrow>
                       (case py_int qnum of
                          Inl e \<Rightarrow> (Inl e, fs2)
                        | Inr n \<Rightarrow>
                            (case relative_to fpath base_path of
                               Inl e \<Rightarrow> (Inl e, fs2)
                             | Inr rel \<Rightarrow>
                                 let meta = \<lparr>md_session_id = sid, md_question_number = n,
                                              md_question_text = qtext, md_filename = fname,
                                              md_timestamp = isoformat now3,
                                              md_file_path = str_rel rel,
                                              md_file_size = length video_data\<rparr>;
                                     metadata_path =
                                       joinpath session_folder (metadata_filename qnum)
                                 in (case write_file fs2 metadata_path
                                            (utf8_encode (json_dump meta)) of
                                       (Some e, fs3) \<Rightarrow> (Inl e, fs3)
                                     | (None, fs3) \<Rightarrow>
                                         (Inr (Save_ok (str_rel rel) (str_abs fpath) meta),
                                          fs3)))))))"

text \<open>\<open>except Exception as e: return {'success': False, 'error': str(e)}\<close>\<close>

definition save_video ::
  "ppath \<Rightarrow> datetime \<Rightarrow> datetime \<Rightarrow> datetime \<Rightarrow> bytes \<Rightarrow> string \<Rightarrow> pyval \<Rightarrow> string \<Rightarrow> fs
     \<Rightarrow> save_result \<times> fs" where
  "save_video base_path now1 now2 now3 video_data sid qnum qtext fs =
     (case save_video_body base_path now1 now2 now3 video_data sid qnum qtext fs of
        (Inl e, fs') \<Rightarrow> (Save_failed (Str_of e), fs')
      | (Inr r, fs') \<Rightarrow> (r, fs'))"

text \<open>
  The result of \<open>get_session_info\<close>. Of the three values the source reports for each
  video the name and the size are kept; the time of creation is not modelled.
\<close>

record file_info =
  fi_filename :: string
  fi_size :: nat

datatype info_result =
    Info_ok (info_session_id: string) (total_questions: nat) (info_session_folder: string)
      (info_videos: "file_info list")
  | Info_failed (info_error: error_text)

fun info_success :: "info_result \<Rightarrow> bool" where
  "info_success (Info_ok _ _ _ _) = True"
| "info_success (Info_failed _) = False"

text \<open>The loop over \<open>video_files\<close> that fills \<open>videos_info\<close>.\<close>

fun videos_info_loop ::
  "nat \<Rightarrow> fs \<Rightarrow> ppath \<Rightarrow> string list \<Rightarrow> file_info list \<Rightarrow> exn + file_info list" where
  "videos_info_loop dir_size fs session_folder [] videos_info = Inr videos_info"
| "videos_info_loop dir_size fs session_folder (name # rest) videos_info =
     (case st_size dir_size fs (child session_folder name) of
        Inl e \<Rightarrow> Inl e
      | Inr sz \<Rightarrow>
          videos_info_loop dir_size fs session_folder rest
            (videos_info @ [\<lparr>fi_filename = name, fi_size = sz\<rparr>]))"

definition get_session_info_body ::
  "nat \<Rightarrow> ppath \<Rightarrow> datetime \<Rightarrow> string \<Rightarrow> fs \<Rightarrow> exn + info_result" where
  "get_session_info_body dir_size base_path now session_id fs =
     (let current_date = strftime_date now;
          session_folder = joinpath (joinpath base_path current_date) session_id
      in (case path_exists fs session_folder of
            Inl e \<Rightarrow> Inl e
          | Inr False \<Rightarrow> Inr (Info_failed Session_not_found)
          | Inr True \<Rightarrow>
              (case glob_suffix fs session_folder ''.webm'' of
                 Inl e \<Rightarrow> Inl e
               | Inr video_files \<Rightarrow>
                   (case glob_suffix fs session_folder ''_metadata.json'' of
                      Inl e \<Rightarrow> Inl e
                    | Inr metadata_files \<Rightarrow>
                        (case videos_info_loop dir_size fs session_folder video_files [] of
                           Inl e \<Rightarrow> Inl e
                         | Inr videos_info \<Rightarrow>
                             (case relative_to session_folder base_path of
                                Inl e \<Rightarrow> Inl e
                              | Inr rel \<Rightarrow>
                                  Inr (Info_ok session_id (length video_files) (str_rel rel)
                                         videos_info)))))))"

definition get_session_info ::
  "nat \<Rightarrow> ppath \<Rightarrow> datetime \<Rightarrow> string \<Rightarrow> fs \<Rightarrow> info_result" where
  "get_session_info dir_size base_path now session_id fs =
     (case get_session_info_body dir_size base_path now session_id fs of
        Inl e \<Rightarrow> Info_failed (Str_of e)
      | Inr r \<Rightarrow> r)"

section \<open>The HTTP handlers\<close>

text \<open>
  An upload request: the part \<open>video\<close> of \<open>request.files\<close>, if present, with its file
  name and its content, and the fields of \<open>request.form\<close>. A response is its status
  code and its JSON body; the fixed messages of the source are constructors.
\<close>

record upload_request =
  req_video :: "(string \<times> bytes) option"
  req_form :: "string \<rightharpoonup> string"

definition form_get :: "(string \<rightharpoonup> string) \<Rightarrow> string \<Rightarrow> string \<Rightarrow> string" where
  "form_get form k dflt = (case form k of None \<Rightarrow> dflt | Some v \<Rightarrow> v)"

datatype upload_body =
    Upload_saved (up_file_path: string) (up_file_size: nat)
  | Video_file_not_found
  | File_not_selected
  | File_empty
  | Save_error error_text

definition upload_video ::
  "ppath \<Rightarrow> datetime \<Rightarrow> datetime \<Rightarrow> datetime \<Rightarrow> upload_request \<Rightarrow> fs
     \<Rightarrow> (nat \<times> upload_body) \<times> fs" where
  "upload_video base_path now1 now2 now3 request fs =
     (case req_video request of
        None \<Rightarrow> ((400, Video_file_not_found), fs)
      | Some (video_name, content) \<Rightarrow>
          let session_id = form_get (req_form request) ''session_id'' ''unknown'';
              question_number = form_get (req_form request) ''question_number'' ''1'';
              question_text = form_get (req_form request) ''question_text'' []
          in if video_name = [] then ((400, File_not_selected), fs)
             else
               let video_data = content
               in if length video_data = 0 then ((400, File_empty), fs)
                  else
                    (case save_video base_path now1 now2 now3 video_data session_id
                            (PStr question_number) question_text fs of
                       (Save_ok fp ap meta, fs') \<Rightarrow>
                         ((200, Upload_saved fp (md_file_size meta)), fs')
                     | (Save_failed err, fs') \<Rightarrow> ((500, Save_error err), fs')))"

datatype session_info_body = Session_info info_result | Session_info_error error_text

definition session_info ::
  "nat \<Rightarrow> ppath \<Rightarrow> datetime \<Rightarrow> string \<Rightarrow> fs \<Rightarrow> nat \<times> session_info_body" where
  "session_info dir_size base_path now session_id fs =
     (let result = get_session_info dir_size base_path now session_id fs
      in (case result of
            Info_ok _ _ _ _ \<Rightarrow> (200, Session_info result)
          | Info_failed err \<Rightarrow> (404, Session_info_error err)))"







section \<open>Notions used in the proofs\<close>

text \<open>A path component as pathlib keeps it: not empty, not \<open>.\<close>, without \<open>/\<close>.\<close>

definition clean :: "string \<Rightarrow> bool" where
  "clean c = (c \<noteq> [] \<and> c \<noteq> ''.'' \<and> CHR ''/'' \<notin> set c)"

text \<open>
  A file system grows into another when every path keeps its entry or is a new
  directory.
\<close>

definition grows :: "fs \<Rightarrow> fs \<Rightarrow> bool" where
  "grows fs fs' = (\<forall>p. lookup fs' p = lookup fs p \<or> (lookup fs p = None \<and> lookup fs' p = Some Dir))"

section \<open>Examples\<close>

text \<open>
  A storage root \<open>/app/video_interviews\<close> without sessions, the clock reading
  2024-06-01 14:05:10, and the state after the save of the example of the specification.
\<close>

definition ex_base :: ppath where
  "ex_base = PPath False [''app'', ''video_interviews'']"

definition ex_fs0 :: fs where
  "ex_fs0 = [([''app''], Dir), ([''app'', ''video_interviews''], Dir)]"

definition ex_now :: datetime where
  "ex_now = \<lparr>year = 2024, month = 6, day = 1, hour = 14, minute = 5, second = 10, microsecond = 0\<rparr>"

definition ex_meta :: metadata where
  "ex_meta = \<lparr>md_session_id = ''sess-A'', md_question_number = 3,
      md_question_text = ''Tell me about yourself'',
      md_filename = ''question_3_14-05-10.webm'',
      md_timestamp = ''2024-06-01T14:05:10'',
      md_file_path = ''2024-06-01/sess-A/question_3_14-05-10.webm'',
      md_file_size = 2\<rparr>"

definition ex_folder :: path where
  "ex_folder = [''app'', ''video_interviews'', ''2024-06-01'', ''sess-A'']"

definition ex_fs1 :: fs where
  "ex_fs1 = ex_fs0 @
     [([''app'', ''video_interviews'', ''2024-06-01''], Dir),
      (ex_folder, Dir),
      (ex_folder @ [''question_3_14-05-10.webm''], File [0, 1]),
      (ex_folder @ [''question_3_metadata.json''], File (utf8_encode (json_dump ex_meta)))]"

text \<open>
  The next day, an upload without form fields, an upload of an empty file, and a
  storage root in which a file stands where today's date folder would be.
\<close>

definition ex_next_day :: datetime where
  "ex_next_day = \<lparr>year = 2024, month = 6, day = 2, hour = 9, minute = 30, second = 0, microsecond = 0\<rparr>"

definition ex_request_bare :: upload_request where
  "ex_request_bare = \<lparr>req_video = Some (''answer.webm'', [7, 8, 9]), req_form = Map.empty\<rparr>"

definition ex_request_empty :: upload_request where
  "ex_request_empty = \<lparr>req_video = Some (''answer.webm'', []),
     req_form = [''session_id'' \<mapsto> ''sess-A'', ''question_number'' \<mapsto> ''3'']\<rparr>"

definition ex_fs_blocked :: fs where
  "ex_fs_blocked = ex_fs0 @ [([''app'', ''video_interviews'', ''2024-06-01''], File [])]"

text \<open>
  A second save for the same session and question one second later, with other bytes,
  and the state it leaves; a storage root with sessions on two days.
\<close>

definition ex_later :: datetime where
  "ex_later = \<lparr>year = 2024, month = 6, day = 1, hour = 14, minute = 5, second = 11, microsecond = 0\<rparr>"

definition ex_meta2 :: metadata where
  "ex_meta2 = \<lparr>md_session_id = ''sess-A'', md_question_number = 3,
      md_question_text = ''Second take'',
      md_filename = ''question_3_14-05-11.webm'',
      md_timestamp = ''2024-06-01T14:05:11'',
      md_file_path = ''2024-06-01/sess-A/question_3_14-05-11.webm'',
      md_file_size = 3\<rparr>"

definition ex_fs2 :: fs where
  "ex_fs2 = ex_fs0 @
     [([''app'', ''video_interviews'', ''2024-06-01''], Dir),
      (ex_folder, Dir),
      (ex_folder @ [''question_3_14-05-10.webm''], File [0, 1]),
      (ex_folder @ [''question_3_metadata.json''], File (utf8_encode (json_dump ex_meta2))),
      (ex_folder @ [''question_3_14-05-11.webm''], File [5, 6, 7])]"


text \<open>The session folder of a call, \<open>base_path / today / session_id\<close>.\<close>

abbreviation session_dir :: "ppath \<Rightarrow> datetime \<Rightarrow> string \<Rightarrow> ppath" where
  "session_dir base_path now sid \<equiv> joinpath (joinpath base_path (strftime_date now)) sid"

text \<open>The state after the folders of the example session have been made.\<close>

definition ex_fs_folders :: fs where
  "ex_fs_folders = ex_fs0 @ [([''app'', ''video_interviews'', ''2024-06-01''], Dir), (ex_folder, Dir)]"

text \<open>
  A second save for the same session and question within the same second, with other
  bytes, and the state it leaves.
\<close>

definition ex_meta_same :: metadata where
  "ex_meta_same = \<lparr>md_session_id = ''sess-A'', md_question_number = 3,
      md_question_text = ''Second take'',
      md_filename = ''question_3_14-05-10.webm'',
      md_timestamp = ''2024-06-01T14:05:10'',
      md_file_path = ''2024-06-01/sess-A/question_3_14-05-10.webm'',
      md_file_size = 3\<rparr>"

definition ex_fs_same :: fs where
  "ex_fs_same = ex_fs0 @
     [([''app'', ''video_interviews'', ''2024-06-01''], Dir),
      (ex_folder, Dir),
      (ex_folder @ [''question_3_14-05-10.webm''], File [5, 6, 7]),
      (ex_folder @ [''question_3_metadata.json''], File (utf8_encode (json_dump ex_meta_same)))]"

text \<open>A session id of 256 bytes, one more than a name may have.\<close>

definition ex_long_sid :: string where
  "ex_long_sid = replicate 256 CHR ''a''"


section \<open>Lemmas on strings and paths\<close>

subsection \<open>Characters of formatted numbers\<close>

lemma is_digit_digit_char: "d < 10 \<Longrightarrow> is_digit (digit_char d)"
proof -
  assume "d < 10"
  then have "d \<in> {0,1,2,3,4,5,6,7,8,9}" by auto
  then show ?thesis by (auto simp: digit_char_def is_digit_def)
qed

lemma str_nat_digits: "c \<in> set (str_nat n) \<Longrightarrow> is_digit c"
proof (induction n rule: str_nat.induct)
  case (1 n)
  show ?case
  proof (cases "n < 10")
    case True
    with "1.prems" show ?thesis
      by (subst (asm) str_nat.simps) (simp add: is_digit_digit_char)
  next
    case False
    with "1.prems" have "c \<in> set (str_nat (n div 10)) \<or> c = digit_char (n mod 10)"
      by (subst (asm) str_nat.simps) auto
    with False "1.IH" show ?thesis
      by (auto simp: is_digit_digit_char)
  qed
qed

lemma str_nat_nonempty: "str_nat n \<noteq> []"
  by (subst str_nat.simps) simp

lemma str_int_chars: "c \<in> set (str_int i) \<Longrightarrow> is_digit c \<or> c = CHR ''-''"
  by (auto simp: str_int_def dest: str_nat_digits split: if_splits)

lemma zfill_chars: "c \<in> set (zfill w s) \<Longrightarrow> c = CHR ''0'' \<or> c \<in> set s"
  by (auto simp: zfill_def)

lemma slash_not_digit: "\<not> is_digit CHR ''/''"
  by (simp add: is_digit_def)

lemma zfill_str_nat_no_slash: "CHR ''/'' \<notin> set (zfill w (str_nat n))"
  using slash_not_digit by (auto dest!: zfill_chars str_nat_digits)

lemma str_nat_no_slash: "CHR ''/'' \<notin> set (str_nat n)"
  using slash_not_digit by (auto dest!: str_nat_digits)

lemma strftime_date_no_slash: "CHR ''/'' \<notin> set (strftime_date t)"
  by (simp add: strftime_date_def zfill_str_nat_no_slash str_nat_no_slash)

lemma strftime_time_no_slash: "CHR ''/'' \<notin> set (strftime_time t)"
  by (simp add: strftime_time_def zfill_str_nat_no_slash)

lemma zfill_nonempty: "s \<noteq> [] \<Longrightarrow> zfill w s \<noteq> []"
  by (simp add: zfill_def)

lemma zfill_first_char: "s \<noteq> [] \<Longrightarrow> hd (zfill w s) = CHR ''0'' \<or> hd (zfill w s) = hd s"
  by (cases "w - length s") (auto simp: zfill_def)

lemma strftime_date_first: "\<exists>c r. strftime_date t = c # r \<and> is_digit c"
proof -
  let ?y = "str_nat (year t)"
  have ne: "?y \<noteq> []" by (simp add: str_nat_nonempty)
  then obtain c r where cr: "?y = c # r" by (cases ?y) auto
  then have "c \<in> set ?y" by simp
  then have "is_digit c" by (rule str_nat_digits)
  with cr show ?thesis by (simp add: strftime_date_def)
qed

subsection \<open>Strings accepted by int()\<close>

lemma digits_from_chars:
  "digits_from acc s = Some n \<Longrightarrow> c \<in> set s \<Longrightarrow> is_digit c \<or> c = CHR ''_''"
  by (induction acc s arbitrary: n rule: digits_from.induct) (auto split: if_splits)

lemma set_dropWhile_subset: "set (dropWhile P xs) \<subseteq> set xs"
  by (induction xs) auto

lemma set_split_dropWhile: "c \<in> set xs \<Longrightarrow> P c \<or> c \<in> set (dropWhile P xs)"
  by (induction xs) (auto split: if_splits)

lemma strip_space_chars: "c \<in> set s \<Longrightarrow> int_space c \<or> c \<in> set (strip_space s)"
proof -
  assume "c \<in> set s"
  then have "int_space c \<or> c \<in> set (dropWhile int_space s)"
    by (rule set_split_dropWhile)
  moreover have "c \<in> set (dropWhile int_space s) \<Longrightarrow> int_space c \<or> c \<in> set (strip_space s)"
    using set_split_dropWhile [of c "rev (dropWhile int_space s)" int_space]
    by (auto simp: strip_space_def)
  ultimately show ?thesis by blast
qed

lemma int_literal_chars:
  assumes "int_literal s = Some i" and "c \<in> set s"
  shows "int_space c \<or> is_digit c \<or> c = CHR ''_'' \<or> c = CHR ''-'' \<or> c = CHR ''+''"
proof -
  from assms(2) have "int_space c \<or> c \<in> set (strip_space s)" by (rule strip_space_chars)
  moreover
  { assume c: "c \<in> set (strip_space s)"
    from assms(1) obtain a r where ar: "strip_space s = a # r"
      by (auto simp: int_literal_def split: list.splits)
    have "is_digit c \<or> c = CHR ''_'' \<or> c = CHR ''-'' \<or> c = CHR ''+''"
    proof (cases "a = CHR ''-'' \<or> a = CHR ''+''")
      case True
      with assms(1) ar obtain d ds n where r: "r = d # ds" "is_digit d"
        "digits_from (digit_val d) ds = Some n"
        by (auto simp: int_literal_def Let_def split: list.splits if_splits)
      from c ar r have "c = a \<or> c = d \<or> c \<in> set ds" by auto
      with True r show ?thesis by (auto dest: digits_from_chars)
    next
      case False
      with assms(1) ar obtain n where r: "is_digit a" "digits_from (digit_val a) r = Some n"
        by (auto simp: int_literal_def Let_def split: list.splits if_splits)
      from c ar have "c = a \<or> c \<in> set r" by auto
      with r show ?thesis by (auto dest: digits_from_chars)
    qed }
  ultimately show ?thesis by blast
qed

lemma py_int_no_slash: "py_int q = Inr n \<Longrightarrow> CHR ''/'' \<notin> set (format_val q)"
proof (cases q)
  case (PInt i)
  show ?thesis using str_int_chars [of "CHR ''/''" i] PInt by (auto simp: is_digit_def)
next
  case (PStr s)
  assume "py_int q = Inr n"
  with PStr have "int_literal s = Some n" by (auto split: option.splits if_splits)
  from int_literal_chars [OF this, of "CHR ''/''"] PStr show ?thesis
    by (auto simp: is_digit_def int_space_def)
qed

subsection \<open>Splitting and joining\<close>

lemma split_on_no_delim: "d \<notin> set s \<Longrightarrow> split_on d s = [s]"
  by (induction s) auto

lemma split_on_nonempty: "split_on d s \<noteq> []"
  by (induction s) (auto split: list.splits)

lemma split_on_append_delim:
  "d \<notin> set x \<Longrightarrow> split_on d (x @ d # rest) = x # split_on d rest"
  by (induction x) (auto split: list.splits)

lemma parse_parts_single:
  "CHR ''/'' \<notin> set s \<Longrightarrow> s \<noteq> [] \<Longrightarrow> s \<noteq> ''.'' \<Longrightarrow> parse_parts s = [s]"
  by (simp add: parse_parts_def split_on_no_delim)

lemma joinpath_single:
  "CHR ''/'' \<notin> set s \<Longrightarrow> s \<noteq> [] \<Longrightarrow> s \<noteq> ''.'' \<Longrightarrow> joinpath p s = child p s"
  by (cases s) (auto simp: joinpath_def child_def parse_parts_single)

lemma split_on_parts_no_delim: "x \<in> set (split_on d s) \<Longrightarrow> d \<notin> set x"
  by (induction s arbitrary: x) (auto split: if_splits list.splits)

lemma parse_parts_clean: "c \<in> set (parse_parts s) \<Longrightarrow> clean c"
  by (auto simp: parse_parts_def clean_def dest: split_on_parts_no_delim)

lemma parse_join_clean:
  "\<forall>c \<in> set ps. clean c \<Longrightarrow> ps \<noteq> [] \<Longrightarrow> parse_parts (join_slash ps) = ps"
proof (induction ps rule: join_slash.induct)
  case 1
  then show ?case by simp
next
  case (2 x)
  then show ?case by (simp add: parse_parts_single clean_def)
next
  case (3 x y ys)
  then have "parse_parts (join_slash (y # ys)) = y # ys" by simp
  moreover from 3 have "CHR ''/'' \<notin> set x" "x \<noteq> []" "x \<noteq> ''.''" by (auto simp: clean_def)
  ultimately show ?case
    by (simp add: parse_parts_def split_on_append_delim)
qed

lemma join_slash_first:
  "ps \<noteq> [] \<Longrightarrow> clean (hd ps) \<Longrightarrow> \<exists>c r. join_slash ps = c # r \<and> c \<noteq> CHR ''/''"
  by (induction ps rule: join_slash.induct) (auto simp: clean_def neq_Nil_conv)

lemma joinpath_str_rel:
  assumes "\<forall>c \<in> set ps. clean c" and "ps \<noteq> []"
  shows "joinpath p (str_rel ps) = PPath (two_slashes p) (parts p @ ps)"
proof -
  from assms have "clean (hd ps)" by (cases ps) auto
  with assms(2) obtain c r where cr: "join_slash ps = c # r" "c \<noteq> CHR ''/''"
    using join_slash_first by blast
  with assms show ?thesis
    using parse_join_clean [of ps] by (simp add: joinpath_def str_rel_def)
qed


section \<open>Lemmas on the file system\<close>

subsection \<open>Following a path\<close>

lemma walk_append:
  "walk fs cur (xs @ ys) = (case walk fs cur xs of Inl e \<Rightarrow> Inl e | Inr d \<Rightarrow> walk fs d ys)"
  by (induction xs arbitrary: cur) (auto split: option.splits entry.splits)

lemma walk_mono:
  assumes "\<And>p. lookup fs p = Some Dir \<Longrightarrow> lookup fs' p = Some Dir"
  shows "walk fs cur cs = Inr q \<Longrightarrow> walk fs' cur cs = Inr q"
proof (induction cs arbitrary: cur)
  case Nil
  then show ?case by simp
next
  case (Cons c cs)
  from Cons.prems have d: "lookup fs cur = Some Dir"
    by (auto split: option.splits entry.splits)
  with Cons.prems have n: "c = ''..'' \<or> \<not> length (utf8_encode c) > name_max"
    by (auto split: if_splits)
  from d Cons.prems have "walk fs (if c = ''..'' then butlast cur else cur @ [c]) cs = Inr q"
    by (auto split: if_splits)
  then have "walk fs' (if c = ''..'' then butlast cur else cur @ [c]) cs = Inr q"
    by (rule Cons.IH)
  with assms [OF d] n show ?case by auto
qed

lemma resolve_mono:
  assumes "\<And>p. lookup fs p = Some Dir \<Longrightarrow> lookup fs' p = Some Dir"
  shows "resolve fs p = Inr q \<Longrightarrow> resolve fs' p = Inr q"
proof -
  assume r: "resolve fs p = Inr q"
  then have w: "walk fs [] (parts p) = Inr q" and n: "\<not> has_nul p"
    and l: "\<not> length (utf8_encode (str_abs p)) \<ge> path_max"
    by (auto simp: resolve_def split: if_splits sum.splits)
  from w have "walk fs' [] (parts p) = Inr q"
    by (rule walk_mono [rotated]) (rule assms)
  with n l show ?thesis by (simp add: resolve_def)
qed

lemma resolve_walk: "resolve fs p = Inr q \<Longrightarrow> walk fs [] (parts p) = Inr q"
  by (auto simp: resolve_def split: if_splits sum.splits)

lemma resolve_snoc:
  assumes "resolve fs (child sf n) = Inr q" and "n \<noteq> ''..''"
  shows "\<exists>d. q = d @ [n]"
proof -
  from assms(1) have "walk fs [] (parts sf @ [n]) = Inr q"
    by (auto simp: child_def dest: resolve_walk)
  then obtain d where "walk fs d [n] = Inr q"
    by (auto simp: walk_append split: sum.splits)
  with assms(2) show ?thesis
    by (auto split: option.splits entry.splits if_splits)
qed

subsection \<open>What the operations change\<close>

lemma grows_refl: "grows fs fs"
  by (simp add: grows_def)

lemma grows_trans: "grows a b \<Longrightarrow> grows b c \<Longrightarrow> grows a c"
  unfolding grows_def by metis

lemma grows_dirs: "grows fs fs' \<Longrightarrow> lookup fs p = Some Dir \<Longrightarrow> lookup fs' p = Some Dir"
  unfolding grows_def by (metis option.distinct(1))

lemma lookup_append_new:
  "lookup fs q = None \<Longrightarrow> lookup (fs @ [(q, e)]) p = (if p = q then Some e else lookup fs p)"
  by (auto simp: lookup_def map_add_def split: if_splits option.splits)

lemma os_mkdir_grows: "os_mkdir fs p = (r, fs') \<Longrightarrow> grows fs fs'"
  by (auto simp: os_mkdir_def grows_def lookup_append_new split: sum.splits option.splits if_splits)

lemma mkdir_exist_ok_grows: "mkdir_exist_ok fs p = (r, fs') \<Longrightarrow> grows fs fs'"
  by (auto simp: mkdir_exist_ok_def
      split: prod.splits option.splits exn.splits errno.splits sum.splits bool.splits
      dest: os_mkdir_grows)

lemma mkdir_parents_grows: "mkdir_parents fs p = (r, fs') \<Longrightarrow> grows fs fs'"
proof (induction fs p arbitrary: r fs' rule: mkdir_parents.induct)
  case (1 fs p)
  obtain r0 fs0 where m: "os_mkdir fs p = (r0, fs0)" by (cases "os_mkdir fs p")
  then have g0: "grows fs fs0" by (rule os_mkdir_grows)
  show ?case
  proof (cases "r0 = Some (OSError ENOENT) \<and> parts p \<noteq> []")
    case False
    with "1.prems" m have "fs' = fs0"
      by (subst (asm) mkdir_parents.simps)
         (auto split: option.splits exn.splits errno.splits if_splits sum.splits bool.splits)
    with g0 show ?thesis by simp
  next
    case True
    obtain r1 fs1 where p1: "mkdir_parents fs0 (parent p) = (r1, fs1)"
      by (cases "mkdir_parents fs0 (parent p)")
    from True m p1 have "grows fs0 fs1"
      using "1.IH" [of r0 fs0 "OSError ENOENT" ENOENT r1 fs1] by simp
    moreover from "1.prems" m True p1 have "fs' = fs1 \<or> (\<exists>r2. mkdir_exist_ok fs1 p = (r2, fs'))"
      by (subst (asm) mkdir_parents.simps) (auto split: option.splits)
    ultimately show ?thesis
      using g0 by (auto dest: mkdir_exist_ok_grows grows_trans)
  qed
qed

lemma lookup_update:
  "q \<noteq> [] \<Longrightarrow> lookup (AList.update q e fs) p = (if p = q then Some e else lookup fs p)"
  by (simp add: lookup_def update_conv')

lemma write_file_ok:
  assumes "write_file fs p d = (None, fs')"
  obtains q where "resolve fs p = Inr q" and "lookup fs q \<noteq> Some Dir"
    and "\<And>p'. lookup fs' p' = (if p' = q then Some (File d) else lookup fs p')"
proof -
  from assms obtain q where q: "resolve fs p = Inr q" "lookup fs q \<noteq> Some Dir"
    "fs' = AList.update q (File d) fs"
    by (auto simp: write_file_def split: sum.splits option.splits entry.splits)
  from q(2) have "q \<noteq> []" by (auto simp: lookup_def)
  with q that show ?thesis by (simp add: lookup_update)
qed

lemma write_file_failed: "write_file fs p d = (Some e, fs') \<Longrightarrow> fs' = fs"
  by (auto simp: write_file_def split: sum.splits option.splits entry.splits)


section \<open>Lemmas on \<open>save_video\<close>\<close>

lemma strftime_date_clean: "clean (strftime_date t)"
proof -
  obtain c r where cr: "strftime_date t = c # r" "is_digit c"
    using strftime_date_first by blast
  then have "strftime_date t \<noteq> []" "strftime_date t \<noteq> ''.''"
    by (auto simp: is_digit_def)
  then show ?thesis
    by (simp add: clean_def strftime_date_no_slash)
qed

lemma strftime_date_single: "joinpath p (strftime_date t) = child p (strftime_date t)"
  using strftime_date_clean [of t] by (simp add: clean_def joinpath_single)

lemma session_dir_relative:
  assumes "sid = [] \<or> hd sid \<noteq> CHR ''/''"
  shows "session_dir base now sid
           = PPath (two_slashes base) (parts base @ strftime_date now # parse_parts sid)"
proof (cases sid)
  case Nil
  then show ?thesis
    by (simp add: strftime_date_single) (simp add: joinpath_def child_def parse_parts_def)
next
  case (Cons c r)
  with assms show ?thesis
    by (simp add: strftime_date_single) (simp add: joinpath_def child_def)
qed

lemma session_dir_absolute:
  assumes "sid \<noteq> []" and "hd sid = CHR ''/''"
  shows "session_dir base now sid = PPath (exactly_two_slashes sid) (parse_parts sid)"
  using assms by (cases sid) (auto simp: joinpath_def)

lemma session_folder_shape:
  "\<exists>tail. (\<forall>c \<in> set tail. clean c) \<and>
     (session_dir base now sid = PPath (two_slashes base) (parts base @ tail)
      \<or> parts (session_dir base now sid) = tail)"
proof (cases "sid = [] \<or> hd sid \<noteq> CHR ''/''")
  case True
  then show ?thesis
    using session_dir_relative [OF True, of base now] parse_parts_clean strftime_date_clean
    by (intro exI [of _ "strftime_date now # parse_parts sid"]) auto
next
  case False
  then show ?thesis
    using session_dir_absolute [of sid base now] parse_parts_clean
    by (intro exI [of _ "parse_parts sid"]) auto
qed

lemma video_filename_props:
  assumes "CHR ''/'' \<notin> set (format_val q)" and "CHR ''/'' \<notin> set ts"
  shows "clean (video_filename q ts)" and "video_filename q ts \<noteq> ''..''"
    and "joinpath sf (video_filename q ts) = child sf (video_filename q ts)"
proof -
  show c: "clean (video_filename q ts)" using assms by (simp add: clean_def video_filename_def)
  show "video_filename q ts \<noteq> ''..''" by (simp add: video_filename_def)
  from c show "joinpath sf (video_filename q ts) = child sf (video_filename q ts)"
    by (simp add: clean_def joinpath_single)
qed

lemma metadata_filename_props:
  assumes "CHR ''/'' \<notin> set (format_val q)"
  shows "clean (metadata_filename q)" and "metadata_filename q \<noteq> ''..''"
    and "joinpath sf (metadata_filename q) = child sf (metadata_filename q)"
proof -
  show c: "clean (metadata_filename q)" using assms by (simp add: clean_def metadata_filename_def)
  show "metadata_filename q \<noteq> ''..''" by (simp add: metadata_filename_def)
  from c show "joinpath sf (metadata_filename q) = child sf (metadata_filename q)"
    by (simp add: clean_def joinpath_single)
qed

lemma video_not_metadata: "video_filename q ts \<noteq> metadata_filename q'"
proof
  assume "video_filename q ts = metadata_filename q'"
  then have "last (video_filename q ts) = last (metadata_filename q')" by simp
  then show False by (simp add: video_filename_def metadata_filename_def)
qed

lemma video_filename_inj: "video_filename q ts = video_filename q ts' \<Longrightarrow> ts = ts'"
  by (simp add: video_filename_def)

lemma save_video_success:
  assumes "save_video base n1 n2 n3 data sid q qt fs = (r, fs')" and "save_success r"
  obtains fs1 fs2 n rel where
    "mkdir_parents fs (session_dir base n1 sid) = (None, fs1)"
    "format_error q = None"
    "write_file fs1 (joinpath (session_dir base n1 sid)
        (video_filename q (strftime_time n2))) data = (None, fs2)"
    "py_int q = Inr n"
    "relative_to (joinpath (session_dir base n1 sid)
        (video_filename q (strftime_time n2))) base = Inr rel"
    "write_file fs2 (joinpath (session_dir base n1 sid) (metadata_filename q))
        (utf8_encode (json_dump (res_metadata r))) = (None, fs')"
    "r = Save_ok (str_rel rel)
           (str_abs (joinpath (session_dir base n1 sid)
              (video_filename q (strftime_time n2))))
           \<lparr>md_session_id = sid, md_question_number = n, md_question_text = qt,
            md_filename = video_filename q (strftime_time n2), md_timestamp = isoformat n3,
            md_file_path = str_rel rel, md_file_size = length data\<rparr>"
  using assms
  by (auto simp: save_video_def save_video_body_def create_session_folder_def Let_def
      split: prod.splits sum.splits option.splits)

subsection \<open>Evaluating the examples\<close>

lemma utf8_char_length: "length (utf8_char c) \<le> 2"
  by (simp add: utf8_char_def Let_def)

lemma utf8_encode_length: "length (utf8_encode s) \<le> 2 * length s"
proof (induction s)
  case Nil
  then show ?case by (simp add: utf8_encode_def)
next
  case (Cons c s)
  then show ?case
    using utf8_char_length [of c] by (simp add: utf8_encode_def)
qed

lemma short_name: "length c \<le> 127 \<Longrightarrow> (name_max < length (utf8_encode c)) = False"
  using utf8_encode_length [of c] by (simp add: name_max_def)

lemma short_path: "length s \<le> 2047 \<Longrightarrow> (path_max \<le> length (utf8_encode s)) = False"
  using utf8_encode_length [of s] by (simp add: path_max_def)

lemma ex_now_date: "strftime_date ex_now = ''2024-06-01''" by code_simp
lemma ex_now_time: "strftime_time ex_now = ''14-05-10''" by code_simp
lemma ex_now_iso: "isoformat ex_now = ''2024-06-01T14:05:10''" by code_simp
lemma str_int_3: "str_int 3 = ''3''" by code_simp
lemma str_nat_3: "str_nat 3 = ''3''" by code_simp

lemmas path_eval = joinpath_def child_def parent_def parse_parts_def relative_to_def
  str_rel_def str_abs_def exactly_two_slashes_def

lemmas fs_eval = lookup_def walk.simps resolve_def has_nul_def os_mkdir_def mkdir_exist_ok_def
  mkdir_parents.simps write_file_def path_is_dir_def path_exists_def ignore_error_def
  short_name short_path path_eval AList.update.simps
  Let_def numeral_2_eq_2

lemma ex_save1:
  "save_video ex_base ex_now ex_now ex_now [0, 1] ''sess-A'' (PInt 3) ''Tell me about yourself'' ex_fs0
  = (Save_ok ''2024-06-01/sess-A/question_3_14-05-10.webm''
       ''/app/video_interviews/2024-06-01/sess-A/question_3_14-05-10.webm'' ex_meta, ex_fs1)"
  by (simp add: save_video_def save_video_body_def create_session_folder_def
      video_filename_def metadata_filename_def ex_now_date ex_now_time ex_now_iso str_int_3
      str_nat_3 int_max_str_digits_def fs_eval ex_base_def ex_fs0_def ex_fs1_def ex_folder_def ex_meta_def)

subsection \<open>The two files of a successful save\<close>

lemma joinpath_str_rel_clean:
  assumes "\<forall>c \<in> set ps. clean c"
  shows "joinpath p (str_rel ps) = PPath (two_slashes p) (parts p @ ps)"
proof (cases "ps = []")
  case True
  then show ?thesis by (simp add: str_rel_def joinpath_def parse_parts_def)
next
  case False
  with assms show ?thesis by (simp add: joinpath_str_rel)
qed

lemma write_file_keeps_dirs:
  "write_file fs p d = (None, fs') \<Longrightarrow> lookup fs x = Some Dir \<Longrightarrow> lookup fs' x = Some Dir"
  by (erule write_file_ok) auto

lemma walk_last:
  "walk fs d [n] = Inr q \<Longrightarrow> n \<noteq> ''..'' \<Longrightarrow> q = d @ [n] \<and> lookup fs d = Some Dir"
  by (auto split: option.splits entry.splits if_splits)

lemma save_video_files:
  assumes "save_video base n1 n2 n3 data sid q qt fs = (r, fs')" and "save_success r"
  shows "\<exists>d. resolve fs' (child (session_dir base n1 sid) (video_filename q (strftime_time n2)))
              = Inr (d @ [video_filename q (strftime_time n2)])
            \<and> lookup fs' (d @ [video_filename q (strftime_time n2)]) = Some (File data)
            \<and> resolve fs' (child (session_dir base n1 sid) (metadata_filename q))
              = Inr (d @ [metadata_filename q])
            \<and> lookup fs' (d @ [metadata_filename q])
                = Some (File (utf8_encode (json_dump (res_metadata r))))"
proof -
  let ?sf = "session_dir base n1 sid"
  let ?fn = "video_filename q (strftime_time n2)" and ?mn = "metadata_filename q"
  from assms(1,2) obtain fs1 fs2 n rel where
    w1: "write_file fs1 (joinpath ?sf ?fn) data = (None, fs2)" and
    n: "py_int q = Inr n" and
    w2: "write_file fs2 (joinpath ?sf ?mn) (utf8_encode (json_dump (res_metadata r))) = (None, fs')"
    by (rule save_video_success)
  from n have ns: "CHR ''/'' \<notin> set (format_val q)" by (rule py_int_no_slash)
  have fp: "joinpath ?sf ?fn = child ?sf ?fn" and fdd: "?fn \<noteq> ''..''"
    using video_filename_props [OF ns strftime_time_no_slash] by auto
  have mp: "joinpath ?sf ?mn = child ?sf ?mn" and mdd: "?mn \<noteq> ''..''"
    using metadata_filename_props [OF ns] by auto
  from w1 fp obtain q1 where q1: "resolve fs1 (child ?sf ?fn) = Inr q1"
    and l1: "\<And>p'. lookup fs2 p' = (if p' = q1 then Some (File data) else lookup fs1 p')"
    by (auto elim: write_file_ok)
  from w2 mp obtain q2 where q2: "resolve fs2 (child ?sf ?mn) = Inr q2"
    and l2: "\<And>p'. lookup fs' p' = (if p' = q2 then Some (File (utf8_encode (json_dump (res_metadata r))))
                 else lookup fs2 p')"
    by (auto elim: write_file_ok)
  have k1: "\<And>x. lookup fs1 x = Some Dir \<Longrightarrow> lookup fs2 x = Some Dir"
    using w1 by (rule write_file_keeps_dirs)
  have k2: "\<And>x. lookup fs2 x = Some Dir \<Longrightarrow> lookup fs' x = Some Dir"
    using w2 by (rule write_file_keeps_dirs)
  from q1 have r2: "resolve fs2 (child ?sf ?fn) = Inr q1"
    by (rule resolve_mono [rotated]) (rule k1)
  then have r3: "resolve fs' (child ?sf ?fn) = Inr q1"
    by (rule resolve_mono [rotated]) (rule k2)
  from q2 have r4: "resolve fs' (child ?sf ?mn) = Inr q2"
    by (rule resolve_mono [rotated]) (rule k2)
  from r2 have "walk fs2 [] (parts ?sf @ [?fn]) = Inr q1"
    by (auto simp: child_def dest: resolve_walk)
  then obtain d where d: "walk fs2 [] (parts ?sf) = Inr d" "walk fs2 d [?fn] = Inr q1"
    by (auto simp: walk_append split: sum.splits)
  have q1d: "q1 = d @ [?fn]"
    using walk_last [OF d(2) fdd] by blast
  from q2 have "walk fs2 [] (parts ?sf @ [?mn]) = Inr q2"
    by (auto simp: child_def dest: resolve_walk)
  with d(1) have "walk fs2 d [?mn] = Inr q2"
    by (simp only: walk_append sum.case)
  then have q2d: "q2 = d @ [?mn]"
    using walk_last [OF _ mdd] by blast
  have ne: "q1 \<noteq> q2" using q1d q2d video_not_metadata by simp
  have "lookup fs' q1 = Some (File data)" using l1 l2 ne by simp
  moreover have "lookup fs' q2 = Some (File (utf8_encode (json_dump (res_metadata r))))"
    using l2 by simp
  ultimately show ?thesis using r3 r4 q1d q2d by auto
qed

lemma save_video_relative_path:
  assumes "save_video base n1 n2 n3 data sid q qt fs = (r, fs')" and "save_success r"
  shows "joinpath base (res_file_path r)
           = child (session_dir base n1 sid) (video_filename q (strftime_time n2))"
    and "md_file_size (res_metadata r) = length data"
proof -
  let ?sf = "session_dir base n1 sid"
  let ?fn = "video_filename q (strftime_time n2)"
  from assms obtain n rel where n: "py_int q = Inr n"
    and rel: "relative_to (joinpath ?sf ?fn) base = Inr rel"
    and r: "res_file_path r = str_rel rel" "md_file_size (res_metadata r) = length data"
    by (rule save_video_success) auto
  from r show "md_file_size (res_metadata r) = length data" by simp
  from n have ns: "CHR ''/'' \<notin> set (format_val q)" by (rule py_int_no_slash)
  have fp: "joinpath ?sf ?fn = child ?sf ?fn" and fc: "clean ?fn"
    using video_filename_props [OF ns strftime_time_no_slash] by auto
  from rel fp have ts: "two_slashes ?sf = two_slashes base"
    and tk: "take (length (parts base)) (parts ?sf @ [?fn]) = parts base"
    and dr: "rel = drop (length (parts base)) (parts ?sf @ [?fn])"
    by (auto simp: relative_to_def child_def split: if_splits)
  obtain tail where tail: "\<forall>c \<in> set tail. clean c"
    "?sf = PPath (two_slashes base) (parts base @ tail) \<or> parts ?sf = tail"
    using session_folder_shape by blast
  have "\<forall>c \<in> set rel. clean c"
  proof
    fix c assume "c \<in> set rel"
    with dr have c: "c \<in> set (drop (length (parts base)) (parts ?sf @ [?fn]))" by simp
    from tail(2) show "clean c"
    proof
      assume "?sf = PPath (two_slashes base) (parts base @ tail)"
      then have "parts ?sf = parts base @ tail" by simp
      with c tail(1) fc show ?thesis by auto
    next
      assume "parts ?sf = tail"
      with c have "c \<in> set (tail @ [?fn])" by (auto dest: in_set_dropD)
      with tail(1) fc show ?thesis by auto
    qed
  qed
  then have "joinpath base (str_rel rel) = PPath (two_slashes base) (parts base @ rel)"
    by (rule joinpath_str_rel_clean)
  also have "parts base @ rel = parts ?sf @ [?fn]" using tk dr by (metis append_take_drop_id)
  finally show "joinpath base (res_file_path r) = child ?sf ?fn"
    using r ts by (simp add: child_def)
qed


section \<open>Reading back what \<open>json.dump\<close> wrote\<close>

subsection \<open>UTF-8\<close>

lemma of_char_less_256: "(of_char c :: nat) < 256"
proof -
  have "(of_char c :: nat) mod 256 = of_char c" by (rule of_char_mod_256)
  moreover have "(of_char c :: nat) mod 256 < 256" by simp
  ultimately show ?thesis by simp
qed

lemma unat_byte: "n < 256 \<Longrightarrow> unat (of_nat n :: byte) = n"
  by (simp add: unat_of_nat)

lemma utf8_decode_two:
  assumes "h = 2 \<or> h = 3" and "m < 64"
  shows "utf8_decode (of_nat (192 + h) # of_nat (128 + m) # bs)
           = map_option (\<lambda>s. char_of (h * 64 + m) # s) (utf8_decode bs)"
proof -
  from assms(1) have "192 + h < 256" by auto
  then have a: "unat (of_nat (192 + h) :: byte) = 192 + h" by (rule unat_byte)
  from assms(2) have "128 + m < 256" by simp
  then have b: "unat (of_nat (128 + m) :: byte) = 128 + m" by (rule unat_byte)
  have "utf8_decode (of_nat (192 + h) # of_nat (128 + m) # bs)
      = (if 192 + h < 128
         then map_option (\<lambda>s. char_of (192 + h) # s) (utf8_decode (of_nat (128 + m) # bs))
         else if (192 + h = 194 \<or> 192 + h = 195) \<and> 128 \<le> 128 + m \<and> 128 + m < 192
         then map_option (\<lambda>s. char_of ((192 + h - 192) * 64 + (128 + m - 128)) # s)
                (utf8_decode bs)
         else None)"
    by (simp only: utf8_decode.simps a b)
  also have "\<dots> = map_option (\<lambda>s. char_of (h * 64 + m) # s) (utf8_decode bs)"
    using assms by auto
  finally show ?thesis .
qed

lemma utf8_decode_char:
  "utf8_decode (utf8_char c @ bs) = map_option (\<lambda>s. c # s) (utf8_decode bs)"
proof (cases "(of_char c :: nat) < 128")
  case True
  then have u: "unat (of_nat (of_char c :: nat) :: byte) = of_char c"
    by (simp add: unat_byte)
  from True show ?thesis
    by (cases bs) (simp_all add: utf8_char_def u)
next
  case False
  let ?n = "of_char c :: nat"
  have lt: "?n < 256" by (rule of_char_less_256)
  from False lt have d: "?n div 64 = 2 \<or> ?n div 64 = 3" by arith
  have m: "?n mod 64 < 64" by simp
  have "?n div 64 * 64 + ?n mod 64 = ?n" by simp
  then have c: "char_of (?n div 64 * 64 + ?n mod 64) = c"
    by (simp only: char_of_char)
  from False have "utf8_char c @ bs
      = of_nat (192 + ?n div 64) # of_nat (128 + ?n mod 64) # bs"
    by (simp add: utf8_char_def Let_def del: of_nat_add)
  then show ?thesis by (simp only: utf8_decode_two [OF d m] c)
qed

lemma utf8_round_trip: "utf8_decode (utf8_encode s) = Some s"
  by (induction s) (simp_all add: utf8_encode_def utf8_decode_char)

subsection \<open>Strings\<close>

lemma char_eq_of_char: "(of_char c :: nat) = of_char d \<Longrightarrow> c = d"
  by simp

lemma read_string_quote: "read_string (CHR 0x22 # t) = Some ([], t)"
  by (cases t) simp_all

lemma read_string_plain:
  assumes "t \<noteq> []" and "c \<noteq> CHR 0x22" and "c \<noteq> CHR 0x5C" and "32 \<le> (of_char c :: nat)"
  shows "read_string (c # t) = map_option (\<lambda>(s, rest). (c # s, rest)) (read_string t)"
  using assms by (cases t) auto

lemma read_string_escaped:
  assumes "unescape e = Some ch" and "e \<noteq> CHR ''u''"
  shows "read_string (CHR 0x5C # e # t) = map_option (\<lambda>(s, rest). (ch # s, rest)) (read_string t)"
  using assms by simp

lemma read_string_hex:
  assumes "hex4 h1 h2 h3 h4 = Some n" and "n < 256"
  shows "read_string (CHR 0x5C # CHR ''u'' # h1 # h2 # h3 # h4 # t)
           = map_option (\<lambda>(s, rest). (char_of n # s, rest)) (read_string t)"
  using assms by simp

lemma hex_val_hex_char: "d < 16 \<Longrightarrow> hex_val (hex_char d) = Some d"
proof -
  assume "d < 16"
  then have "d = 0 \<or> d = 1 \<or> d = 2 \<or> d = 3 \<or> d = 4 \<or> d = 5 \<or> d = 6 \<or> d = 7 \<or> d = 8
      \<or> d = 9 \<or> d = 10 \<or> d = 11 \<or> d = 12 \<or> d = 13 \<or> d = 14 \<or> d = 15"
    by presburger
  then show ?thesis by (auto simp: hex_char_def hex_val_def Let_def)
qed

lemma hex4_control:
  assumes "n < 32"
  shows "hex4 CHR ''0'' CHR ''0'' (hex_char (n div 16)) (hex_char (n mod 16)) = Some n"
proof -
  from assms have "n div 16 < 16" "n mod 16 < 16" by auto
  then have "hex_val (hex_char (n div 16)) = Some (n div 16)"
    "hex_val (hex_char (n mod 16)) = Some (n mod 16)"
    by (auto intro: hex_val_hex_char)
  moreover have "hex_val CHR ''0'' = Some 0" by (simp add: hex_val_def)
  ultimately show ?thesis by (simp add: hex4_def)
qed

lemma read_string_escape:
  assumes "t \<noteq> []"
  shows "read_string (json_escape c @ t) = map_option (\<lambda>(s, rest). (c # s, rest)) (read_string t)"
proof -
  let ?n = "of_char c :: nat"
  have named: "read_string (json_escape c @ t)
      = map_option (\<lambda>(s, rest). (c # s, rest)) (read_string t)"
    if "?n = of_char d" and "json_escape d = [CHR 0x5C, e]" and "unescape e = Some d"
      and "e \<noteq> CHR ''u''" for d e
  proof -
    from that(1) have "c = d" by (rule char_eq_of_char)
    with that show ?thesis by (simp add: read_string_escaped)
  qed
  consider "?n = 34" | "?n = 92" | "?n = 10" | "?n = 13" | "?n = 9" | "?n = 8" | "?n = 12"
    | "?n < 32" "?n \<noteq> 10" "?n \<noteq> 13" "?n \<noteq> 9" "?n \<noteq> 8" "?n \<noteq> 12"
    | "32 \<le> ?n" "?n \<noteq> 34" "?n \<noteq> 92"
    using linorder_not_less [of ?n 32] by blast
  then show ?thesis
  proof cases
    case 1
    then show ?thesis
      by (intro named [of "CHR 0x22" "CHR 0x22"]) (simp_all add: json_escape_def unescape_def)
  next
    case 2
    then show ?thesis
      by (intro named [of "CHR 0x5C" "CHR 0x5C"]) (simp_all add: json_escape_def unescape_def)
  next
    case 3
    then show ?thesis
      by (intro named [of "CHR 0x0A" "CHR ''n''"]) (simp_all add: json_escape_def unescape_def)
  next
    case 4
    then show ?thesis
      by (intro named [of "CHR 0x0D" "CHR ''r''"]) (simp_all add: json_escape_def unescape_def)
  next
    case 5
    then show ?thesis
      by (intro named [of "CHR 0x09" "CHR ''t''"]) (simp_all add: json_escape_def unescape_def)
  next
    case 6
    then show ?thesis
      by (intro named [of "CHR 0x08" "CHR ''b''"]) (simp_all add: json_escape_def unescape_def)
  next
    case 7
    then show ?thesis
      by (intro named [of "CHR 0x0C" "CHR ''f''"]) (simp_all add: json_escape_def unescape_def)
  next
    case 8
    then have e: "json_escape c
        = [CHR 0x5C, CHR ''u'', CHR ''0'', CHR ''0'', hex_char (?n div 16), hex_char (?n mod 16)]"
      by (simp add: json_escape_def Let_def)
    have "read_string (CHR 0x5C # CHR ''u'' # CHR ''0'' # CHR ''0'' # hex_char (?n div 16)
              # hex_char (?n mod 16) # t)
          = map_option (\<lambda>(s, rest). (char_of ?n # s, rest)) (read_string t)"
      using hex4_control [OF 8(1)] 8(1) by (intro read_string_hex) simp_all
    with e show ?thesis by simp
  next
    case 9
    then have e: "json_escape c = [c]" by (simp add: json_escape_def Let_def)
    from 9 have "c \<noteq> CHR 0x22" "c \<noteq> CHR 0x5C" by auto
    with 9(1) assms e show ?thesis by (simp add: read_string_plain)
  qed
qed

lemma read_string_round_trip:
  "read_string (concat (map json_escape s) @ CHR 0x22 # rest) = Some (s, rest)"
proof (induction s)
  case Nil
  show ?case by (simp add: read_string_quote)
next
  case (Cons c s)
  have "read_string (json_escape c @ (concat (map json_escape s) @ CHR 0x22 # rest))
      = map_option (\<lambda>(s, rest). (c # s, rest))
          (read_string (concat (map json_escape s) @ CHR 0x22 # rest))"
    by (rule read_string_escape) simp
  with Cons show ?case by simp
qed

subsection \<open>Integers\<close>

lemma digit_val_digit_char: "d < 10 \<Longrightarrow> digit_val (digit_char d) = d"
proof -
  assume "d < 10"
  then have "d = 0 \<or> d = 1 \<or> d = 2 \<or> d = 3 \<or> d = 4 \<or> d = 5 \<or> d = 6 \<or> d = 7 \<or> d = 8
      \<or> d = 9"
    by presburger
  then show ?thesis by (auto simp: digit_char_def digit_val_def)
qed

lemma digits_value_snoc: "digits_value (ds @ [d]) = 10 * digits_value ds + digit_val d"
  by (simp add: digits_value_def)

lemma digits_value_str_nat: "digits_value (str_nat n) = n"
proof (induction n rule: str_nat.induct)
  case (1 n)
  show ?case
  proof (cases "n < 10")
    case True
    then show ?thesis
      by (subst str_nat.simps) (simp add: digits_value_def digit_val_digit_char)
  next
    case False
    with "1.IH" have "digits_value (str_nat (n div 10)) = n div 10" by simp
    with False show ?thesis
      by (subst str_nat.simps) (simp add: digits_value_snoc digit_val_digit_char)
  qed
qed

lemma digit_char_zero: "d < 10 \<Longrightarrow> digit_char d = CHR ''0'' \<Longrightarrow> d = 0"
  using digit_val_digit_char [of d] by (simp add: digit_val_def)

lemma str_nat_no_leading_zero: "0 < n \<Longrightarrow> hd (str_nat n) \<noteq> CHR ''0''"
proof (induction n rule: str_nat.induct)
  case (1 n)
  show ?case
  proof (cases "n < 10")
    case True
    with "1.prems" show ?thesis
      by (subst str_nat.simps) (auto dest: digit_char_zero)
  next
    case False
    then have "0 < n div 10" by simp
    with False "1.IH" have "hd (str_nat (n div 10)) \<noteq> CHR ''0''" by simp
    with False show ?thesis
      by (subst str_nat.simps) (simp add: str_nat_nonempty)
  qed
qed

lemma str_nat_single_or_no_zero: "length (str_nat n) > 1 \<Longrightarrow> hd (str_nat n) \<noteq> CHR ''0''"
proof (cases "n = 0")
  case True
  assume "length (str_nat n) > 1"
  with True show ?thesis by (subst (asm) str_nat.simps) simp
next
  case False
  then show ?thesis by (simp add: str_nat_no_leading_zero)
qed

lemma takeWhile_digits:
  assumes "rest = [] \<or> (\<not> is_digit (hd rest) \<and> hd rest \<noteq> CHR ''.'' \<and> hd rest \<noteq> CHR ''e''
        \<and> hd rest \<noteq> CHR ''E'')"
  shows "takeWhile is_digit (str_nat n @ rest) = str_nat n"
    and "dropWhile is_digit (str_nat n @ rest) = rest"
proof -
  have a: "\<And>x. x \<in> set (str_nat n) \<Longrightarrow> is_digit x" by (rule str_nat_digits)
  from assms have t: "takeWhile is_digit rest = []" and d: "dropWhile is_digit rest = rest"
    by (cases rest; simp)+
  from a t show "takeWhile is_digit (str_nat n @ rest) = str_nat n"
    by (simp add: takeWhile_append2)
  from a d show "dropWhile is_digit (str_nat n @ rest) = rest"
    by (simp add: dropWhile_append2)
qed

lemma read_int_str_nat:
  assumes "rest = [] \<or> (\<not> is_digit (hd rest) \<and> hd rest \<noteq> CHR ''.'' \<and> hd rest \<noteq> CHR ''e''
        \<and> hd rest \<noteq> CHR ''E'')"
  shows "read_int (str_nat n @ rest) = Some (int n, rest)"
proof -
  obtain c r where cr: "str_nat n = c # r" using str_nat_nonempty [of n] by (cases "str_nat n") auto
  then have "c \<in> set (str_nat n)" by simp
  then have "is_digit c" by (rule str_nat_digits)
  then have nm: "c \<noteq> CHR ''-''" by (auto simp: is_digit_def)
  have e: "rest = [] \<or> (hd rest \<noteq> CHR ''.'' \<and> hd rest \<noteq> CHR ''e'' \<and> hd rest \<noteq> CHR ''E'')"
    using assms by auto
  have z: "\<not> (length (str_nat n) > 1 \<and> hd (str_nat n) = CHR ''0'')"
    using str_nat_single_or_no_zero by blast
  have neg: "\<not> (str_nat n @ rest \<noteq> [] \<and> hd (str_nat n @ rest) = CHR ''-'')"
    using cr nm by simp
  show ?thesis
    unfolding read_int_def Let_def
    using neg z e takeWhile_digits [OF assms, of n] str_nat_nonempty [of n]
    by (simp add: digits_value_str_nat)
qed

lemma read_int_str_int:
  assumes "rest = [] \<or> (\<not> is_digit (hd rest) \<and> hd rest \<noteq> CHR ''.'' \<and> hd rest \<noteq> CHR ''e''
        \<and> hd rest \<noteq> CHR ''E'')"
  shows "read_int (str_int i @ rest) = Some (i, rest)"
proof (cases "i < 0")
  case False
  then show ?thesis using read_int_str_nat [OF assms, of "nat i"] by (simp add: str_int_def)
next
  case True
  have z: "\<not> (length (str_nat (nat (- i))) > 1 \<and> hd (str_nat (nat (- i))) = CHR ''0'')"
    using str_nat_single_or_no_zero by blast
  have e: "rest = [] \<or> (hd rest \<noteq> CHR ''.'' \<and> hd rest \<noteq> CHR ''e'' \<and> hd rest \<noteq> CHR ''E'')"
    using assms by auto
  from True show ?thesis
    unfolding read_int_def Let_def
    using z e takeWhile_digits [OF assms, of "nat (- i)"] str_nat_nonempty [of "nat (- i)"]
    by (simp add: str_int_def digits_value_str_nat)
qed

subsection \<open>Members\<close>

lemma read_string_json_str:
  "read_string (tl (json_str s) @ rest) = Some (s, rest)"
  using read_string_round_trip [of s rest] by (simp add: json_str_def)

lemma json_str_cons: "json_str s = CHR 0x22 # tl (json_str s)"
  by (simp add: json_str_def)

lemma read_value_str:
  "read_value (json_str s @ rest) = Some (JStr s, rest)"
proof -
  have "read_value (CHR 0x22 # (tl (json_str s) @ rest)) = Some (JStr s, rest)"
    by (simp only: read_value_def list.case if_True read_string_json_str) simp
  then show ?thesis by (subst json_str_cons) simp
qed

lemma str_int_first: "str_int i \<noteq> [] \<and> hd (str_int i) \<noteq> CHR 0x22"
proof (cases "i < 0")
  case True
  then show ?thesis by (simp add: str_int_def)
next
  case False
  have "hd (str_nat (nat i)) \<in> set (str_nat (nat i))"
    using str_nat_nonempty by simp
  then have "is_digit (hd (str_nat (nat i)))" by (rule str_nat_digits)
  then have "hd (str_nat (nat i)) \<noteq> CHR 0x22" by (auto simp: is_digit_def)
  with False show ?thesis by (simp add: str_int_def str_nat_nonempty)
qed

lemma read_value_int:
  assumes "rest = [] \<or> (\<not> is_digit (hd rest) \<and> hd rest \<noteq> CHR ''.'' \<and> hd rest \<noteq> CHR ''e''
        \<and> hd rest \<noteq> CHR ''E'')"
  shows "read_value (str_int i @ rest) = Some (JInt i, rest)"
proof -
  obtain c r where cr: "str_int i = c # r" and c: "c \<noteq> CHR 0x22"
    using str_int_first [of i] by (cases "str_int i") auto
  have "read_value ((c # r) @ rest) = map_option (\<lambda>(i, rest). (JInt i, rest)) (read_int ((c # r) @ rest))"
    using c by (simp add: read_value_def)
  then show ?thesis using read_int_str_int [OF assms, of i] by (simp add: cr)
qed

lemma skip_space_colon: "skip_space (CHR '':'' # s) = CHR '':'' # s"
  by (simp add: skip_space_def json_space_def)

lemma skip_space_space: "skip_space (CHR '' '' # s) = skip_space s"
  by (simp add: skip_space_def json_space_def)

lemma skip_space_json_str: "skip_space (json_str s @ rest) = json_str s @ rest"
  by (simp add: skip_space_def json_space_def json_str_def)

lemma skip_space_str_int: "skip_space (str_int i @ rest) = str_int i @ rest"
proof -
  obtain c r where cr: "str_int i = c # r" using str_int_first [of i] by (cases "str_int i") auto
  then have "c \<in> set (str_int i)" by simp
  then have "is_digit c \<or> c = CHR ''-''" using str_int_chars by blast
  then have "\<not> json_space c" by (auto simp: is_digit_def json_space_def)
  then show ?thesis by (simp add: cr skip_space_def)
qed

lemma read_member_str:
  "read_member (json_str k @ '': '' @ json_str v @ rest) = Some ((k, JStr v), skip_space rest)"
proof -
  have "read_member (CHR 0x22 # (tl (json_str k) @ ('': '' @ json_str v @ rest)))
      = Some ((k, JStr v), skip_space rest)"
    by (simp add: read_member_def read_string_json_str skip_space_colon
          skip_space_space skip_space_json_str read_value_str)
  then show ?thesis by (subst json_str_cons) simp
qed

lemma read_member_int:
  assumes "rest = [] \<or> (\<not> is_digit (hd rest) \<and> hd rest \<noteq> CHR ''.'' \<and> hd rest \<noteq> CHR ''e''
        \<and> hd rest \<noteq> CHR ''E'')"
  shows "read_member (json_str k @ '': '' @ str_int i @ rest) = Some ((k, JInt i), skip_space rest)"
proof -
  have "read_member (CHR 0x22 # (tl (json_str k) @ ('': '' @ str_int i @ rest)))
      = Some ((k, JInt i), skip_space rest)"
    by (simp add: read_member_def read_string_json_str skip_space_colon
          skip_space_space skip_space_str_int read_value_int [OF assms])
  then show ?thesis by (subst json_str_cons) simp
qed

lemma skip_space_member: "skip_space (json_member k v @ rest) = json_str k @ '': '' @ v @ rest"
proof -
  have "skip_space (json_member k v @ rest) = skip_space (json_str k @ ('': '' @ v @ rest))"
    by (simp add: json_member_def skip_space_def json_space_def)
  then show ?thesis by (simp only: skip_space_json_str)
qed

lemma read_members_str:
  "read_members (Suc fuel) acc (json_member k (json_str v) @ CHR '','' # rest)
     = read_members fuel (AList.update k (JStr v) acc) rest"
proof -
  have "skip_space (CHR '','' # rest) = CHR '','' # rest"
    by (simp add: skip_space_def json_space_def)
  then show ?thesis
    using read_member_str [of k v "CHR '','' # rest"]
    by (simp add: skip_space_member)
qed

lemma read_members_int:
  "read_members (Suc fuel) acc (json_member k (str_int i) @ CHR '','' # rest)
     = read_members fuel (AList.update k (JInt i) acc) rest"
proof -
  have "skip_space (CHR '','' # rest) = CHR '','' # rest"
    by (simp add: skip_space_def json_space_def)
  moreover have "read_member (json_str k @ '': '' @ str_int i @ CHR '','' # rest)
      = Some ((k, JInt i), skip_space (CHR '','' # rest))"
    by (rule read_member_int) (simp add: is_digit_def)
  ultimately show ?thesis by (simp add: skip_space_member)
qed

lemma read_members_last:
  "read_members (Suc fuel) acc (json_member k (str_int i) @ CHR 0x0A # CHR ''}'' # rest)
     = Some (AList.update k (JInt i) acc, rest)"
proof -
  have "skip_space (CHR 0x0A # CHR ''}'' # rest) = CHR ''}'' # rest"
    by (simp add: skip_space_def json_space_def)
  moreover have "read_member (json_str k @ '': '' @ str_int i @ CHR 0x0A # CHR ''}'' # rest)
      = Some ((k, JInt i), skip_space (CHR 0x0A # CHR ''}'' # rest))"
    by (rule read_member_int) (simp add: is_digit_def)
  ultimately show ?thesis by (simp add: skip_space_member)
qed

lemma read_members_more_fuel:
  "read_members fuel acc s = Some x \<Longrightarrow> read_members (fuel + k) acc s = Some x"
proof (induction fuel arbitrary: acc s)
  case 0
  then show ?case by simp
next
  case (Suc fuel)
  then show ?case
    by (auto split: option.splits list.splits if_splits prod.splits)
qed

lemma str_int_nat: "str_int (int n) = str_nat n"
  by (simp add: str_int_def)

lemma read_members_dump:
  "read_members 7 [] (tl (json_dump m))
     = Some ([(''session_id'', JStr (md_session_id m)),
         (''question_number'', JInt (md_question_number m)),
         (''question_text'', JStr (md_question_text m)),
         (''filename'', JStr (md_filename m)),
         (''timestamp'', JStr (md_timestamp m)),
         (''file_path'', JStr (md_file_path m)),
         (''file_size'', JInt (int (md_file_size m)))], [])"
proof -
  have t: "tl (json_dump m) =
     json_member ''session_id'' (json_str (md_session_id m)) @ CHR '','' #
     json_member ''question_number'' (str_int (md_question_number m)) @ CHR '','' #
     json_member ''question_text'' (json_str (md_question_text m)) @ CHR '','' #
     json_member ''filename'' (json_str (md_filename m)) @ CHR '','' #
     json_member ''timestamp'' (json_str (md_timestamp m)) @ CHR '','' #
     json_member ''file_path'' (json_str (md_file_path m)) @ CHR '','' #
     json_member ''file_size'' (str_int (int (md_file_size m))) @ CHR 0x0A # CHR ''}'' # []"
    by (simp add: json_dump_def str_int_nat)
  have n: "(7::nat) = Suc (Suc (Suc (Suc (Suc (Suc (Suc 0))))))" by simp
  show ?thesis
    unfolding t n
    by (simp only: read_members_str read_members_int read_members_last)
       simp
qed

lemma json_dump_length: "7 \<le> length (tl (json_dump m))"
  by (simp add: json_dump_def json_member_def)

lemma json_loads_dump:
  "json_loads (json_dump m)
     = Some [(''session_id'', JStr (md_session_id m)),
         (''question_number'', JInt (md_question_number m)),
         (''question_text'', JStr (md_question_text m)),
         (''filename'', JStr (md_filename m)),
         (''timestamp'', JStr (md_timestamp m)),
         (''file_path'', JStr (md_file_path m)),
         (''file_size'', JInt (int (md_file_size m)))]"
  (is "_ = Some ?ms")
proof -
  have d: "json_dump m = CHR ''{'' # tl (json_dump m)" by (simp add: json_dump_def)
  obtain r' where s: "skip_space (tl (json_dump m)) = CHR 0x22 # r'"
    by (simp add: json_dump_def json_member_def skip_space_def json_space_def json_str_def)
  obtain k where k: "length (tl (json_dump m)) = 7 + k"
    using json_dump_length [of m] by (metis le_Suc_ex)
  have r: "read_members (length (tl (json_dump m))) [] (tl (json_dump m))
      = Some (?ms, [])"
    unfolding k by (rule read_members_more_fuel) (rule read_members_dump)
  have "json_loads (CHR ''{'' # tl (json_dump m)) = Some ?ms"
    unfolding json_loads_def
    by (simp add: skip_space_def [of "CHR ''{'' # tl (json_dump m)"] json_space_def s r
      skip_space_def [of "[]"] del: length_tl)
  with d show ?thesis by simp
qed

lemma json_load_dump:
  "json_load (utf8_encode (json_dump m))
     = Some [(''session_id'', JStr (md_session_id m)),
         (''question_number'', JInt (md_question_number m)),
         (''question_text'', JStr (md_question_text m)),
         (''filename'', JStr (md_filename m)),
         (''timestamp'', JStr (md_timestamp m)),
         (''file_path'', JStr (md_file_path m)),
         (''file_size'', JInt (int (md_file_size m)))]"
  by (simp add: json_load_def utf8_round_trip json_loads_dump)


section \<open>The properties of the specification\<close>

lemma save_video_metadata:
  assumes "save_video base n1 n2 n3 data sid q qt fs = (r, fs')" and "save_success r"
  shows "\<exists>n. py_int q = Inr n
         \<and> json_load (utf8_encode (json_dump (res_metadata r)))
             = Some [(''session_id'', JStr sid),
                       (''question_number'', JInt n),
                       (''question_text'', JStr qt),
                       (''filename'', JStr (video_filename q (strftime_time n2))),
                       (''timestamp'', JStr (isoformat n3)),
                       (''file_path'', JStr (res_file_path r)),
                       (''file_size'', JInt (int (length data)))]"
proof -
  from assms obtain n rel where n: "py_int q = Inr n"
    and r: "r = Save_ok (str_rel rel)
           (str_abs (joinpath (session_dir base n1 sid) (video_filename q (strftime_time n2))))
           \<lparr>md_session_id = sid, md_question_number = n, md_question_text = qt,
            md_filename = video_filename q (strftime_time n2), md_timestamp = isoformat n3,
            md_file_path = str_rel rel, md_file_size = length data\<rparr>"
    by (rule save_video_success)
  from r have "json_load (utf8_encode (json_dump (res_metadata r)))
             = Some [(''session_id'', JStr sid),
                       (''question_number'', JInt n),
                       (''question_text'', JStr qt),
                       (''filename'', JStr (video_filename q (strftime_time n2))),
                       (''timestamp'', JStr (isoformat n3)),
                       (''file_path'', JStr (res_file_path r)),
                       (''file_size'', JInt (int (length data)))]"
    by (simp add: json_load_dump)
  with n show ?thesis by blast
qed

lemma str_nat_2: "str_nat 2 = ''2''" by code_simp

lemma ex_meta_text:
  "json_dump ex_meta =
          ''{'' @
          [CHR 0x0A] @ ''  '' @ [CHR 0x22] @ ''session_id'' @ [CHR 0x22] @ '': '' @ [CHR 0x22] @ ''sess-A'' @ [CHR 0x22] @ '','' @
          [CHR 0x0A] @ ''  '' @ [CHR 0x22] @ ''question_number'' @ [CHR 0x22] @ '': '' @ ''3'' @ '','' @
          [CHR 0x0A] @ ''  '' @ [CHR 0x22] @ ''question_text'' @ [CHR 0x22] @ '': '' @ [CHR 0x22] @ ''Tell me about yourself'' @ [CHR 0x22] @ '','' @
          [CHR 0x0A] @ ''  '' @ [CHR 0x22] @ ''filename'' @ [CHR 0x22] @ '': '' @ [CHR 0x22] @ ''question_3_14-05-10.webm'' @ [CHR 0x22] @ '','' @
          [CHR 0x0A] @ ''  '' @ [CHR 0x22] @ ''timestamp'' @ [CHR 0x22] @ '': '' @ [CHR 0x22] @ ''2024-06-01T14:05:10'' @ [CHR 0x22] @ '','' @
          [CHR 0x0A] @ ''  '' @ [CHR 0x22] @ ''file_path'' @ [CHR 0x22] @ '': '' @ [CHR 0x22] @ ''2024-06-01/sess-A/question_3_14-05-10.webm'' @ [CHR 0x22] @ '','' @
          [CHR 0x0A] @ ''  '' @ [CHR 0x22] @ ''file_size'' @ [CHR 0x22] @ '': '' @ ''2'' @
          [CHR 0x0A] @ ''}''"
  by (simp add: json_dump_def json_member_def json_str_def json_escape_def ex_meta_def
      str_int_3 str_nat_2)

lemma ex_meta_read:
  "json_load (utf8_encode (json_dump ex_meta))
     = Some [(''session_id'', JStr ''sess-A''),
              (''question_number'', JInt 3),
              (''question_text'', JStr ''Tell me about yourself''),
              (''filename'', JStr ''question_3_14-05-10.webm''),
              (''timestamp'', JStr ''2024-06-01T14:05:10''),
              (''file_path'', JStr ''2024-06-01/sess-A/question_3_14-05-10.webm''),
              (''file_size'', JInt 2)]"
  by (simp add: json_load_dump ex_meta_def)

text \<open>
  C1. Whenever \<open>save_video\<close> returns success, the path \<open>base_path / file_path\<close> of the
  result leads to a file whose content is the input bytes, and the path
  \<open>session_folder / question_<n>_metadata.json\<close> leads to a file that \<open>json.load\<close> reads
  as the dictionary of the arguments of the call: the session id, the question number as
  an integer, the question text, the name of the video file, the time of the third
  clock reading, the relative path of the result, and as \<open>file_size\<close> the number of
  input bytes. The example of the specification: saving the two bytes 0, 1 for session
  \<open>sess-A\<close>, question 3, on 2024-06-01 at 14:05:10 into an empty storage root creates
  \<open>2024-06-01/sess-A/question_3_14-05-10.webm\<close> with these two bytes and
  \<open>question_3_metadata.json\<close>, whose text is given in full and is read back with
  \<open>file_size\<close> 2.
\<close>

theorem save_video_round_trip:
  "(save_video base n1 n2 n3 data sid q qt fs = (r, fs') \<and> save_success r \<longrightarrow>
      (\<exists>p. resolve fs' (joinpath base (res_file_path r)) = Inr p
           \<and> lookup fs' p = Some (File data))
      \<and> (\<exists>pm b n. resolve fs' (joinpath (joinpath (joinpath base (strftime_date n1)) sid)
                                 (metadata_filename q)) = Inr pm
           \<and> lookup fs' pm = Some (File b)
           \<and> b = utf8_encode (json_dump (res_metadata r))
           \<and> py_int q = Inr n
           \<and> json_load b
               = Some [(''session_id'', JStr sid),
                       (''question_number'', JInt n),
                       (''question_text'', JStr qt),
                       (''filename'', JStr (video_filename q (strftime_time n2))),
                       (''timestamp'', JStr (isoformat n3)),
                       (''file_path'', JStr (res_file_path r)),
                       (''file_size'', JInt (int (length data)))])
      \<and> md_file_size (res_metadata r) = length data)
   \<and> save_video ex_base ex_now ex_now ex_now [0, 1] ''sess-A'' (PInt 3) ''Tell me about yourself'' ex_fs0
       = (Save_ok ''2024-06-01/sess-A/question_3_14-05-10.webm''
            ''/app/video_interviews/2024-06-01/sess-A/question_3_14-05-10.webm'' ex_meta,
          ex_fs0 @
          [([''app'', ''video_interviews'', ''2024-06-01''], Dir),
           ([''app'', ''video_interviews'', ''2024-06-01'', ''sess-A''], Dir),
           ([''app'', ''video_interviews'', ''2024-06-01'', ''sess-A'', ''question_3_14-05-10.webm''],
            File [0, 1]),
           ([''app'', ''video_interviews'', ''2024-06-01'', ''sess-A'', ''question_3_metadata.json''],
            File (utf8_encode (json_dump ex_meta)))])
   \<and> md_file_size ex_meta = 2
   \<and> json_dump ex_meta =
          ''{'' @
          [CHR 0x0A] @ ''  '' @ [CHR 0x22] @ ''session_id'' @ [CHR 0x22] @ '': '' @ [CHR 0x22] @ ''sess-A'' @ [CHR 0x22] @ '','' @
          [CHR 0x0A] @ ''  '' @ [CHR 0x22] @ ''question_number'' @ [CHR 0x22] @ '': '' @ ''3'' @ '','' @
          [CHR 0x0A] @ ''  '' @ [CHR 0x22] @ ''question_text'' @ [CHR 0x22] @ '': '' @ [CHR 0x22] @ ''Tell me about yourself'' @ [CHR 0x22] @ '','' @
          [CHR 0x0A] @ ''  '' @ [CHR 0x22] @ ''filename'' @ [CHR 0x22] @ '': '' @ [CHR 0x22] @ ''question_3_14-05-10.webm'' @ [CHR 0x22] @ '','' @
          [CHR 0x0A] @ ''  '' @ [CHR 0x22] @ ''timestamp'' @ [CHR 0x22] @ '': '' @ [CHR 0x22] @ ''2024-06-01T14:05:10'' @ [CHR 0x22] @ '','' @
          [CHR 0x0A] @ ''  '' @ [CHR 0x22] @ ''file_path'' @ [CHR 0x22] @ '': '' @ [CHR 0x22] @ ''2024-06-01/sess-A/question_3_14-05-10.webm'' @ [CHR 0x22] @ '','' @
          [CHR 0x0A] @ ''  '' @ [CHR 0x22] @ ''file_size'' @ [CHR 0x22] @ '': '' @ ''2'' @
          [CHR 0x0A] @ ''}''
   \<and> json_load (utf8_encode (json_dump ex_meta))
       = Some [(''session_id'', JStr ''sess-A''),
              (''question_number'', JInt 3),
              (''question_text'', JStr ''Tell me about yourself''),
              (''filename'', JStr ''question_3_14-05-10.webm''),
              (''timestamp'', JStr ''2024-06-01T14:05:10''),
              (''file_path'', JStr ''2024-06-01/sess-A/question_3_14-05-10.webm''),
              (''file_size'', JInt 2)]"
proof (intro conjI impI)
  assume a: "save_video base n1 n2 n3 data sid q qt fs = (r, fs') \<and> save_success r"
  then have s: "save_video base n1 n2 n3 data sid q qt fs = (r, fs')" and ok: "save_success r"
    by auto
  from save_video_files [OF s ok] save_video_relative_path [OF s ok]
  show "\<exists>p. resolve fs' (joinpath base (res_file_path r)) = Inr p \<and> lookup fs' p = Some (File data)"
    by auto
  from save_video_metadata [OF s ok] obtain n where n: "py_int q = Inr n"
    and j: "json_load (utf8_encode (json_dump (res_metadata r)))
             = Some [(''session_id'', JStr sid),
                       (''question_number'', JInt n),
                       (''question_text'', JStr qt),
                       (''filename'', JStr (video_filename q (strftime_time n2))),
                       (''timestamp'', JStr (isoformat n3)),
                       (''file_path'', JStr (res_file_path r)),
                       (''file_size'', JInt (int (length data)))]"
    by blast
  from n have ns: "CHR ''/'' \<notin> set (format_val q)" by (rule py_int_no_slash)
  have mp: "joinpath (joinpath (joinpath base (strftime_date n1)) sid) (metadata_filename q)
      = child (joinpath (joinpath base (strftime_date n1)) sid) (metadata_filename q)"
    using metadata_filename_props [OF ns] by auto
  from save_video_files [OF s ok] obtain pm where
    "resolve fs' (child (joinpath (joinpath base (strftime_date n1)) sid) (metadata_filename q))
       = Inr pm"
    "lookup fs' pm = Some (File (utf8_encode (json_dump (res_metadata r))))"
    by blast
  with n j mp
  show "\<exists>pm b n. resolve fs' (joinpath (joinpath (joinpath base (strftime_date n1)) sid)
                                 (metadata_filename q)) = Inr pm
           \<and> lookup fs' pm = Some (File b)
           \<and> b = utf8_encode (json_dump (res_metadata r))
           \<and> py_int q = Inr n
           \<and> json_load b
               = Some [(''session_id'', JStr sid),
                       (''question_number'', JInt n),
                       (''question_text'', JStr qt),
                       (''filename'', JStr (video_filename q (strftime_time n2))),
                       (''timestamp'', JStr (isoformat n3)),
                       (''file_path'', JStr (res_file_path r)),
                       (''file_size'', JInt (int (length data)))]"
    by (intro exI [of _ pm] exI [of _ "utf8_encode (json_dump (res_metadata r))"] exI [of _ n])
       simp
  from save_video_relative_path [OF s ok]
  show "md_file_size (res_metadata r) = length data" by simp
next
  show "save_video ex_base ex_now ex_now ex_now [0, 1] ''sess-A'' (PInt 3) ''Tell me about yourself'' ex_fs0
       = (Save_ok ''2024-06-01/sess-A/question_3_14-05-10.webm''
            ''/app/video_interviews/2024-06-01/sess-A/question_3_14-05-10.webm'' ex_meta,
          ex_fs0 @
          [([''app'', ''video_interviews'', ''2024-06-01''], Dir),
           ([''app'', ''video_interviews'', ''2024-06-01'', ''sess-A''], Dir),
           ([''app'', ''video_interviews'', ''2024-06-01'', ''sess-A'', ''question_3_14-05-10.webm''],
            File [0, 1]),
           ([''app'', ''video_interviews'', ''2024-06-01'', ''sess-A'', ''question_3_metadata.json''],
            File (utf8_encode (json_dump ex_meta)))])"
    using ex_save1 by (simp add: ex_fs1_def ex_folder_def)
next
  show "md_file_size ex_meta = 2" by (simp add: ex_meta_def)
next
  show "json_dump ex_meta =
          ''{'' @
          [CHR 0x0A] @ ''  '' @ [CHR 0x22] @ ''session_id'' @ [CHR 0x22] @ '': '' @ [CHR 0x22] @ ''sess-A'' @ [CHR 0x22] @ '','' @
          [CHR 0x0A] @ ''  '' @ [CHR 0x22] @ ''question_number'' @ [CHR 0x22] @ '': '' @ ''3'' @ '','' @
          [CHR 0x0A] @ ''  '' @ [CHR 0x22] @ ''question_text'' @ [CHR 0x22] @ '': '' @ [CHR 0x22] @ ''Tell me about yourself'' @ [CHR 0x22] @ '','' @
          [CHR 0x0A] @ ''  '' @ [CHR 0x22] @ ''filename'' @ [CHR 0x22] @ '': '' @ [CHR 0x22] @ ''question_3_14-05-10.webm'' @ [CHR 0x22] @ '','' @
          [CHR 0x0A] @ ''  '' @ [CHR 0x22] @ ''timestamp'' @ [CHR 0x22] @ '': '' @ [CHR 0x22] @ ''2024-06-01T14:05:10'' @ [CHR 0x22] @ '','' @
          [CHR 0x0A] @ ''  '' @ [CHR 0x22] @ ''file_path'' @ [CHR 0x22] @ '': '' @ [CHR 0x22] @ ''2024-06-01/sess-A/question_3_14-05-10.webm'' @ [CHR 0x22] @ '','' @
          [CHR 0x0A] @ ''  '' @ [CHR 0x22] @ ''file_size'' @ [CHR 0x22] @ '': '' @ ''2'' @
          [CHR 0x0A] @ ''}''"
    by (rule ex_meta_text)
next
  show "json_load (utf8_encode (json_dump ex_meta))
       = Some [(''session_id'', JStr ''sess-A''),
              (''question_number'', JInt 3),
              (''question_text'', JStr ''Tell me about yourself''),
              (''filename'', JStr ''question_3_14-05-10.webm''),
              (''timestamp'', JStr ''2024-06-01T14:05:10''),
              (''file_path'', JStr ''2024-06-01/sess-A/question_3_14-05-10.webm''),
              (''file_size'', JInt 2)]"
    by (rule ex_meta_read)
qed

lemma ex_int_3: "py_int (PInt 3) = Inr 3"
  by simp

theorem save_video_round_trip_witness:
  "save_video ex_base ex_now ex_now ex_now [0, 1] ''sess-A'' (PInt 3) ''Tell me about yourself'' ex_fs0
     = (Save_ok ''2024-06-01/sess-A/question_3_14-05-10.webm''
         ''/app/video_interviews/2024-06-01/sess-A/question_3_14-05-10.webm'' ex_meta, ex_fs1)
   \<and> save_success (Save_ok ''2024-06-01/sess-A/question_3_14-05-10.webm''
         ''/app/video_interviews/2024-06-01/sess-A/question_3_14-05-10.webm'' ex_meta)
   \<and> (\<exists>p. resolve ex_fs1 (joinpath ex_base ''2024-06-01/sess-A/question_3_14-05-10.webm'') = Inr p
          \<and> lookup ex_fs1 p = Some (File [0, 1]))
   \<and> (\<exists>pm b. resolve ex_fs1 (joinpath (joinpath (joinpath ex_base ''2024-06-01'') ''sess-A'')
                               ''question_3_metadata.json'') = Inr pm
          \<and> lookup ex_fs1 pm = Some (File b)
          \<and> json_load b
              = Some [(''session_id'', JStr ''sess-A''),
                      (''question_number'', JInt 3),
                      (''question_text'', JStr ''Tell me about yourself''),
                      (''filename'', JStr ''question_3_14-05-10.webm''),
                      (''timestamp'', JStr ''2024-06-01T14:05:10''),
                      (''file_path'', JStr ''2024-06-01/sess-A/question_3_14-05-10.webm''),
                      (''file_size'', JInt (int (length [0 :: byte, 1])))])
   \<and> md_file_size ex_meta = length [0 :: byte, 1]"
proof -
  let ?r = "Save_ok ''2024-06-01/sess-A/question_3_14-05-10.webm''
         ''/app/video_interviews/2024-06-01/sess-A/question_3_14-05-10.webm'' ex_meta"
  have ok: "save_success ?r" by simp
  from save_video_round_trip [of ex_base ex_now ex_now ex_now "[0, 1]" "''sess-A''" "PInt 3"
      "''Tell me about yourself''" ex_fs0 ?r ex_fs1] ex_save1 ok
  have v: "\<exists>p. resolve ex_fs1 (joinpath ex_base (res_file_path ?r)) = Inr p
           \<and> lookup ex_fs1 p = Some (File [0, 1])"
    and m: "\<exists>pm b n. resolve ex_fs1 (joinpath (joinpath (joinpath ex_base (strftime_date ex_now))
                 ''sess-A'') (metadata_filename (PInt 3))) = Inr pm
           \<and> lookup ex_fs1 pm = Some (File b)
           \<and> b = utf8_encode (json_dump (res_metadata ?r))
           \<and> py_int (PInt 3) = Inr n
           \<and> json_load b
               = Some [(''session_id'', JStr ''sess-A''),
                       (''question_number'', JInt n),
                       (''question_text'', JStr ''Tell me about yourself''),
                       (''filename'', JStr (video_filename (PInt 3) (strftime_time ex_now))),
                       (''timestamp'', JStr (isoformat ex_now)),
                       (''file_path'', JStr (res_file_path ?r)),
                       (''file_size'', JInt (int (length [0 :: byte, 1])))]"
    and z: "md_file_size (res_metadata ?r) = length [0 :: byte, 1]"
    by blast+
  from m have "\<exists>pm b. resolve ex_fs1 (joinpath (joinpath (joinpath ex_base ''2024-06-01'') ''sess-A'')
                               ''question_3_metadata.json'') = Inr pm
          \<and> lookup ex_fs1 pm = Some (File b)
          \<and> json_load b
              = Some [(''session_id'', JStr ''sess-A''),
                      (''question_number'', JInt 3),
                      (''question_text'', JStr ''Tell me about yourself''),
                      (''filename'', JStr ''question_3_14-05-10.webm''),
                      (''timestamp'', JStr ''2024-06-01T14:05:10''),
                      (''file_path'', JStr ''2024-06-01/sess-A/question_3_14-05-10.webm''),
                      (''file_size'', JInt (int (length [0 :: byte, 1])))]"
    by (simp add: ex_now_date ex_now_time ex_now_iso metadata_filename_def video_filename_def
        str_int_3) blast
  with v z ex_save1 ok show ?thesis by simp
qed

text \<open>
  C3. \<open>save_video\<close> and \<open>get_session_info\<close> return a result on every input: an exception
  raised in the body of \<open>save_video\<close> becomes the result \<open>success: False\<close> with the text
  of the exception, and a body that returns normally returns \<open>success: True\<close>;
  \<open>get_session_info\<close> does the same, its body also returning the failure "session not
  found" by itself. The callers choose the status code: the upload handler answers a
  failed save with 500, the session handler a failed lookup with 404.
\<close>

theorem failures_are_results:
  "(case save_video_body base_path now1 now2 now3 video_data sid qnum qtext fs of
      (Inl e, fs') \<Rightarrow>
        save_video base_path now1 now2 now3 video_data sid qnum qtext fs
          = (Save_failed (Str_of e), fs')
    | (Inr r, fs') \<Rightarrow>
        save_video base_path now1 now2 now3 video_data sid qnum qtext fs = (r, fs')
        \<and> save_success r)
   \<and> (case get_session_info_body dir_size base_path now sid fs of
        Inl e \<Rightarrow> get_session_info dir_size base_path now sid fs = Info_failed (Str_of e)
      | Inr r \<Rightarrow> get_session_info dir_size base_path now sid fs = r
          \<and> (info_success r \<or> r = Info_failed Session_not_found))
   \<and> (case save_video base_path now1 now2 now3 (c # cs)
              (form_get form ''session_id'' ''unknown'')
              (PStr (form_get form ''question_number'' ''1''))
              (form_get form ''question_text'' []) fs of
        (Save_failed err, fs') \<Rightarrow>
          upload_video base_path now1 now2 now3
            \<lparr>req_video = Some (n # ns, c # cs), req_form = form\<rparr> fs
            = ((500, Save_error err), fs')
      | (Save_ok fp ap meta, fs') \<Rightarrow>
          upload_video base_path now1 now2 now3
            \<lparr>req_video = Some (n # ns, c # cs), req_form = form\<rparr> fs
            = ((200, Upload_saved fp (md_file_size meta)), fs'))
   \<and> (case get_session_info dir_size base_path now sid fs of
        Info_failed err \<Rightarrow>
          session_info dir_size base_path now sid fs = (404, Session_info_error err)
      | Info_ok a b c d \<Rightarrow>
          session_info dir_size base_path now sid fs = (200, Session_info (Info_ok a b c d)))"
proof (intro conjI)
  show "case save_video_body base_path now1 now2 now3 video_data sid qnum qtext fs of
      (Inl e, fs') \<Rightarrow>
        save_video base_path now1 now2 now3 video_data sid qnum qtext fs
          = (Save_failed (Str_of e), fs')
    | (Inr r, fs') \<Rightarrow>
        save_video base_path now1 now2 now3 video_data sid qnum qtext fs = (r, fs')
        \<and> save_success r"
  proof (cases "save_video_body base_path now1 now2 now3 video_data sid qnum qtext fs")
    case (Pair x fs')
    show ?thesis
    proof (cases x)
      case (Inl e)
      with Pair show ?thesis by (simp add: save_video_def)
    next
      case (Inr r)
      with Pair have "save_success r"
        by (auto simp: save_video_body_def Let_def split: prod.splits sum.splits option.splits)
      with Pair Inr show ?thesis by (simp add: save_video_def)
    qed
  qed
next
  show "case get_session_info_body dir_size base_path now sid fs of
        Inl e \<Rightarrow> get_session_info dir_size base_path now sid fs = Info_failed (Str_of e)
      | Inr r \<Rightarrow> get_session_info dir_size base_path now sid fs = r
          \<and> (info_success r \<or> r = Info_failed Session_not_found)"
    by (auto simp: get_session_info_def get_session_info_body_def Let_def
        split: sum.splits if_splits bool.splits)
next
  show "case save_video base_path now1 now2 now3 (c # cs)
              (form_get form ''session_id'' ''unknown'')
              (PStr (form_get form ''question_number'' ''1''))
              (form_get form ''question_text'' []) fs of
        (Save_failed err, fs') \<Rightarrow>
          upload_video base_path now1 now2 now3
            \<lparr>req_video = Some (n # ns, c # cs), req_form = form\<rparr> fs
            = ((500, Save_error err), fs')
      | (Save_ok fp ap meta, fs') \<Rightarrow>
          upload_video base_path now1 now2 now3
            \<lparr>req_video = Some (n # ns, c # cs), req_form = form\<rparr> fs
            = ((200, Upload_saved fp (md_file_size meta)), fs')"
    by (simp add: upload_video_def Let_def split: prod.splits save_result.splits)
next
  show "case get_session_info dir_size base_path now sid fs of
        Info_failed err \<Rightarrow>
          session_info dir_size base_path now sid fs = (404, Session_info_error err)
      | Info_ok a b c d \<Rightarrow>
          session_info dir_size base_path now sid fs = (200, Session_info (Info_ok a b c d))"
    by (simp add: session_info_def Let_def split: info_result.splits)
qed

lemma ex_body_blocked:
  "save_video_body ex_base ex_now ex_now ex_now [0, 1] ''sess-A'' (PInt 3) [] ex_fs_blocked
     = (Inl (OSError ENOTDIR), ex_fs_blocked)"
  by (simp add: save_video_body_def create_session_folder_def ex_now_date fs_eval
      ex_base_def ex_fs0_def ex_fs_blocked_def)

theorem failures_are_results_witness:
  "save_video ex_base ex_now ex_now ex_now [0, 1] ''sess-A'' (PInt 3) [] ex_fs_blocked
     = (Save_failed (Str_of (OSError ENOTDIR)), ex_fs_blocked)"
  using failures_are_results [of ex_base ex_now ex_now ex_now "[0, 1]" "''sess-A''" "PInt 3" "[]"
      ex_fs_blocked]
    ex_body_blocked
  by simp

lemma walk_too_long:
  "walk fs cur cs = Inl ENAMETOOLONG \<Longrightarrow> \<exists>c \<in> set cs. name_max < length (utf8_encode c)"
  by (induction cs arbitrary: cur) (auto split: option.splits entry.splits if_splits)

lemma resolve_too_long:
  assumes "resolve fs p = Inl (OSError ENAMETOOLONG)"
  shows "path_max \<le> length (utf8_encode (str_abs p))
         \<or> (\<exists>c \<in> set (parts p). name_max < length (utf8_encode c))"
  using assms
  by (auto simp: resolve_def split: if_splits sum.splits dest: walk_too_long)

lemma resolve_errors:
  "resolve fs p = Inl x
     \<Longrightarrow> x = ValueError_null \<or> x = OSError ENOENT \<or> x = OSError ENOTDIR
          \<or> x = OSError ENAMETOOLONG"
proof -
  have w: "walk fs cur cs = Inl e \<Longrightarrow> e = ENOENT \<or> e = ENOTDIR \<or> e = ENAMETOOLONG" for cur cs e
    by (induction cs arbitrary: cur) (auto split: option.splits entry.splits if_splits)
  assume "resolve fs p = Inl x"
  then show ?thesis
    by (auto simp: resolve_def split: if_splits sum.splits dest: w)
qed

lemma path_exists_cases:
  "path_exists fs p =
     (case resolve fs p of
        Inr q \<Rightarrow> Inr (lookup fs q \<noteq> None)
      | Inl x \<Rightarrow> if x = OSError ENAMETOOLONG then Inl x else Inr False)"
proof (cases "resolve fs p")
  case (Inr q)
  then show ?thesis by (simp add: path_exists_def)
next
  case (Inl x)
  with resolve_errors [OF Inl] show ?thesis
    by (auto simp: path_exists_def ignore_error_def)
qed

text \<open>
  C4. \<open>get_session_info\<close> looks at \<open>base_path / today / session_id\<close> only. When the
  path leads to no entry of the file system, whatever else the storage holds, the
  result is a failure and the session handler answers 404: the failure is "session not
  found", unless the operating system refuses the path as too long, and then it is the
  text of that error. The path is not refused when each of its components has at most
  255 bytes and its string less than 4096. In the example the session exists under the
  date of the day before.
\<close>

theorem session_of_another_day_not_found:
  assumes "\<not> (\<exists>q. resolve fs (joinpath (joinpath base_path (strftime_date now)) sid) = Inr q
                 \<and> lookup fs q \<noteq> None)"
  shows "(resolve fs (joinpath (joinpath base_path (strftime_date now)) sid)
            \<noteq> Inl (OSError ENAMETOOLONG)
          \<longrightarrow> get_session_info dir_size base_path now sid fs = Info_failed Session_not_found
              \<and> session_info dir_size base_path now sid fs
                  = (404, Session_info_error Session_not_found))
       \<and> (resolve fs (joinpath (joinpath base_path (strftime_date now)) sid)
            = Inl (OSError ENAMETOOLONG)
          \<longrightarrow> get_session_info dir_size base_path now sid fs
                = Info_failed (Str_of (OSError ENAMETOOLONG))
              \<and> session_info dir_size base_path now sid fs
                  = (404, Session_info_error (Str_of (OSError ENAMETOOLONG))))
       \<and> ((\<forall>c \<in> set (parts (joinpath (joinpath base_path (strftime_date now)) sid)).
              length (utf8_encode c) \<le> name_max)
           \<and> length (utf8_encode (str_abs (joinpath (joinpath base_path (strftime_date now)) sid)))
               < path_max
          \<longrightarrow> resolve fs (joinpath (joinpath base_path (strftime_date now)) sid)
                \<noteq> Inl (OSError ENAMETOOLONG))"
proof (intro conjI impI)
  let ?sf = "joinpath (joinpath base_path (strftime_date now)) sid"
  {
    assume n: "resolve fs ?sf \<noteq> Inl (OSError ENAMETOOLONG)"
    with assms have "path_exists fs ?sf = Inr False"
      by (auto simp: path_exists_cases split: sum.splits)
    then have g: "get_session_info dir_size base_path now sid fs = Info_failed Session_not_found"
      by (simp add: get_session_info_def get_session_info_body_def Let_def)
    then show "get_session_info dir_size base_path now sid fs = Info_failed Session_not_found" .
    from g show "session_info dir_size base_path now sid fs
                  = (404, Session_info_error Session_not_found)"
      by (simp add: session_info_def)
  }
  {
    assume "resolve fs ?sf = Inl (OSError ENAMETOOLONG)"
    then have "path_exists fs ?sf = Inl (OSError ENAMETOOLONG)"
      by (simp add: path_exists_cases)
    then have g: "get_session_info dir_size base_path now sid fs
        = Info_failed (Str_of (OSError ENAMETOOLONG))"
      by (simp add: get_session_info_def get_session_info_body_def Let_def)
    then show "get_session_info dir_size base_path now sid fs
        = Info_failed (Str_of (OSError ENAMETOOLONG))" .
    from g show "session_info dir_size base_path now sid fs
                  = (404, Session_info_error (Str_of (OSError ENAMETOOLONG)))"
      by (simp add: session_info_def)
  }
  {
    assume "(\<forall>c \<in> set (parts ?sf). length (utf8_encode c) \<le> name_max)
           \<and> length (utf8_encode (str_abs ?sf)) < path_max"
    then show "resolve fs ?sf \<noteq> Inl (OSError ENAMETOOLONG)"
      by (auto dest!: resolve_too_long)
  }
qed

lemma ex_next_day_date: "strftime_date ex_next_day = ''2024-06-02''"
  by code_simp

lemma ex_next_day_missing:
  "resolve ex_fs1 (joinpath (joinpath ex_base (strftime_date ex_next_day)) ''sess-A'')
     = Inl (OSError ENOENT)"
  by (simp add: ex_next_day_date fs_eval ex_base_def ex_fs0_def ex_fs1_def ex_folder_def)

lemma ex_first_day_present:
  "path_is_dir ex_fs1 (joinpath (joinpath ex_base (strftime_date ex_now)) ''sess-A'') = Inr True"
  by (simp add: ex_now_date fs_eval ex_base_def ex_fs0_def ex_fs1_def ex_folder_def)

theorem session_of_another_day_not_found_witness:
  "path_is_dir ex_fs1 (joinpath (joinpath ex_base (strftime_date ex_now)) ''sess-A'') = Inr True
   \<and> resolve ex_fs1 (joinpath (joinpath ex_base (strftime_date ex_next_day)) ''sess-A'')
       = Inl (OSError ENOENT)
   \<and> get_session_info 4096 ex_base ex_next_day ''sess-A'' ex_fs1 = Info_failed Session_not_found
   \<and> session_info 4096 ex_base ex_next_day ''sess-A'' ex_fs1
       = (404, Session_info_error Session_not_found)"
proof -
  have h: "\<not> (\<exists>q. resolve ex_fs1 (joinpath (joinpath ex_base (strftime_date ex_next_day)) ''sess-A'')
                   = Inr q \<and> lookup ex_fs1 q \<noteq> None)"
    by (simp add: ex_next_day_missing)
  from session_of_another_day_not_found [OF h, of 4096]
  have "get_session_info 4096 ex_base ex_next_day ''sess-A'' ex_fs1 = Info_failed Session_not_found
      \<and> session_info 4096 ex_base ex_next_day ''sess-A'' ex_fs1
          = (404, Session_info_error Session_not_found)"
    by (simp add: ex_next_day_missing)
  with ex_next_day_missing ex_first_day_present show ?thesis by simp
qed

lemma ex_long_sid_differs: "length s < 256 \<Longrightarrow> (ex_long_sid = s) = False"
  by (auto simp: ex_long_sid_def)

lemma ex_long_sid_props:
  "CHR ''/'' \<notin> set ex_long_sid" "ex_long_sid \<noteq> []" "ex_long_sid \<noteq> ''.''" "ex_long_sid \<noteq> ''..''"
  "CHR 0x00 \<notin> set ex_long_sid" "length ex_long_sid = 256"
  by (simp_all add: ex_long_sid_differs) (simp_all add: ex_long_sid_def)

lemma utf8_encode_ascii: "\<forall>c \<in> set s. (of_char c :: nat) < 128 \<Longrightarrow> length (utf8_encode s) = length s"
  by (induction s) (simp_all add: utf8_encode_def utf8_char_def)

lemma utf8_encode_Cons: "utf8_encode (c # s) = utf8_char c @ utf8_encode s"
  by (simp add: utf8_encode_def)

lemma ex_long_sid_bytes: "length (utf8_encode ex_long_sid) = 256"
proof -
  have "\<forall>c \<in> set ex_long_sid. (of_char c :: nat) < 128" by (simp add: ex_long_sid_def)
  then show ?thesis by (simp add: utf8_encode_ascii ex_long_sid_props)
qed

lemma ex_long_resolve:
  "resolve ex_fs1 (joinpath (joinpath ex_base (strftime_date ex_now)) ex_long_sid)
     = Inl (OSError ENAMETOOLONG)"
proof -
  have j: "joinpath (joinpath ex_base (strftime_date ex_now)) ex_long_sid
      = PPath False [''app'', ''video_interviews'', ''2024-06-01'', ex_long_sid]"
    by (simp add: joinpath_single ex_long_sid_props ex_now_date)
       (simp add: joinpath_def child_def parse_parts_def ex_base_def)
  have n: "\<not> has_nul (PPath False [''app'', ''video_interviews'', ''2024-06-01'', ex_long_sid])"
    by (simp add: has_nul_def ex_long_sid_props)
  have "length (utf8_encode (str_abs
      (PPath False [''app'', ''video_interviews'', ''2024-06-01'', ex_long_sid]))) = 289"
    by (simp add: str_abs_def utf8_encode_Cons utf8_char_def ex_long_sid_bytes)
  then have l: "\<not> path_max \<le> length (utf8_encode (str_abs
      (PPath False [''app'', ''video_interviews'', ''2024-06-01'', ex_long_sid])))"
    by (simp add: path_max_def)
  have w: "walk ex_fs1 [] [''app'', ''video_interviews'', ''2024-06-01'', ex_long_sid]
      = Inl ENAMETOOLONG"
    by (simp add: lookup_def short_name ex_fs0_def ex_fs1_def ex_folder_def ex_long_sid_props
        ex_long_sid_bytes name_max_def)
  show ?thesis unfolding j by (simp only: resolve_def n l w if_False sum.case ppath.sel)
qed

theorem session_of_another_day_not_found_counterexample:
  "length ex_long_sid = 256
   \<and> lookup ex_fs1 [''app'', ''video_interviews'', ''2024-06-01'', ex_long_sid] = None
   \<and> path_exists ex_fs1 (joinpath (joinpath ex_base (strftime_date ex_now)) ex_long_sid)
       = Inl (OSError ENAMETOOLONG)
   \<and> get_session_info 4096 ex_base ex_now ex_long_sid ex_fs1
       = Info_failed (Str_of (OSError ENAMETOOLONG))
   \<and> get_session_info 4096 ex_base ex_now ex_long_sid ex_fs1 \<noteq> Info_failed Session_not_found
   \<and> session_info 4096 ex_base ex_now ex_long_sid ex_fs1
       = (404, Session_info_error (Str_of (OSError ENAMETOOLONG)))"
proof -
  have e: "path_exists ex_fs1 (joinpath (joinpath ex_base (strftime_date ex_now)) ex_long_sid)
       = Inl (OSError ENAMETOOLONG)"
    by (simp add: path_exists_def ex_long_resolve ignore_error_def)
  then have g: "get_session_info 4096 ex_base ex_now ex_long_sid ex_fs1
       = Info_failed (Str_of (OSError ENAMETOOLONG))"
    by (simp add: get_session_info_def get_session_info_body_def)
  have n: "lookup ex_fs1 [''app'', ''video_interviews'', ''2024-06-01'', ex_long_sid] = None"
    by (simp add: lookup_def ex_fs0_def ex_fs1_def ex_folder_def ex_long_sid_differs)
  from e g n ex_long_sid_props(6) show ?thesis by (simp add: session_info_def)
qed

text \<open>
  C8. An upload whose \<open>video\<close> part has no bytes is answered with status 400 and the file
  system is left as it was: \<open>save_video\<close> is not reached, so neither a folder nor a file
  is created.
\<close>

theorem upload_empty_payload_rejected:
  assumes "req_video request = Some (name, [])"
  shows "\<exists>body. upload_video base_path now1 now2 now3 request fs = ((400, body), fs)
           \<and> (body = File_not_selected \<or> body = File_empty)"
  using assms by (simp add: upload_video_def Let_def)

theorem upload_empty_payload_rejected_witness:
  "req_video ex_request_empty = Some (''answer.webm'', [])
   \<and> upload_video ex_base ex_now ex_now ex_now ex_request_empty ex_fs0 = ((400, File_empty), ex_fs0)"
proof -
  have h: "req_video ex_request_empty = Some (''answer.webm'', [])"
    by (simp add: ex_request_empty_def)
  from upload_empty_payload_rejected [OF h, of ex_base ex_now ex_now ex_now ex_fs0]
  show ?thesis using h by (auto simp: upload_video_def)
qed

text \<open>
  C10. A form field that is absent is read as its default: for the handler a request
  without \<open>session_id\<close> is the same request with \<open>session_id\<close> \<open>unknown\<close>, one without
  \<open>question_number\<close> the same with \<open>1\<close>, one without \<open>question_text\<close> the same with the
  empty string. With a video that has a name and at least one byte the request is not
  rejected: the response is that of \<open>save_video\<close> called with these values.
\<close>

theorem upload_missing_fields_defaulted:
  "(req_form request ''session_id'' = None \<longrightarrow>
      upload_video base_path now1 now2 now3 request fs
        = upload_video base_path now1 now2 now3
            (request\<lparr>req_form := (req_form request)(''session_id'' \<mapsto> ''unknown'')\<rparr>) fs)
   \<and> (req_form request ''question_number'' = None \<longrightarrow>
      upload_video base_path now1 now2 now3 request fs
        = upload_video base_path now1 now2 now3
            (request\<lparr>req_form := (req_form request)(''question_number'' \<mapsto> ''1'')\<rparr>) fs)
   \<and> (req_form request ''question_text'' = None \<longrightarrow>
      upload_video base_path now1 now2 now3 request fs
        = upload_video base_path now1 now2 now3
            (request\<lparr>req_form := (req_form request)(''question_text'' \<mapsto> [])\<rparr>) fs)
   \<and> (req_form request ''session_id'' = None \<and> req_form request ''question_number'' = None
        \<and> req_form request ''question_text'' = None
        \<and> req_video request = Some (n # ns, c # cs) \<longrightarrow>
      upload_video base_path now1 now2 now3 request fs
        = (case save_video base_path now1 now2 now3 (c # cs) ''unknown'' (PStr ''1'') [] fs of
             (Save_ok fp ap meta, fs') \<Rightarrow> ((200, Upload_saved fp (md_file_size meta)), fs')
           | (Save_failed err, fs') \<Rightarrow> ((500, Save_error err), fs')))"
  by (auto simp: upload_video_def form_get_def Let_def split: option.splits)

lemma ex_request_bare_fields:
  "req_form ex_request_bare ''session_id'' = None"
  "req_form ex_request_bare ''question_number'' = None"
  "req_form ex_request_bare ''question_text'' = None"
  "req_video ex_request_bare = Some (''answer.webm'', [7, 8, 9])"
  by (simp_all add: ex_request_bare_def)

lemma ex_save_defaults:
  "fst (save_video ex_base ex_now ex_now ex_now [7, 8, 9] ''unknown'' (PStr ''1'') [] ex_fs0)
     = Save_ok ''2024-06-01/unknown/question_1_14-05-10.webm''
         ''/app/video_interviews/2024-06-01/unknown/question_1_14-05-10.webm''
         \<lparr>md_session_id = ''unknown'', md_question_number = 1, md_question_text = [],
          md_filename = ''question_1_14-05-10.webm'', md_timestamp = ''2024-06-01T14:05:10'',
          md_file_path = ''2024-06-01/unknown/question_1_14-05-10.webm'', md_file_size = 3\<rparr>"
  by (simp add: save_video_def save_video_body_def create_session_folder_def
      video_filename_def metadata_filename_def ex_now_date ex_now_time ex_now_iso
      too_many_digits_def int_max_str_digits_def int_literal_def strip_space_def int_space_def is_digit_def digit_val_def
      fs_eval ex_base_def ex_fs0_def numeral_3_eq_3)

theorem upload_missing_fields_defaulted_witness:
  "req_form ex_request_bare ''session_id'' = None
   \<and> req_form ex_request_bare ''question_number'' = None
   \<and> req_form ex_request_bare ''question_text'' = None
   \<and> fst (upload_video ex_base ex_now ex_now ex_now ex_request_bare ex_fs0)
       = (200, Upload_saved ''2024-06-01/unknown/question_1_14-05-10.webm'' 3)"
proof -
  have "upload_video ex_base ex_now ex_now ex_now ex_request_bare ex_fs0
      = (case save_video ex_base ex_now ex_now ex_now [7, 8, 9] ''unknown'' (PStr ''1'') [] ex_fs0 of
           (Save_ok fp ap meta, fs') \<Rightarrow> ((200, Upload_saved fp (md_file_size meta)), fs')
         | (Save_failed err, fs') \<Rightarrow> ((500, Save_error err), fs'))"
    using upload_missing_fields_defaulted [where request = ex_request_bare and n = "CHR ''a''"
        and ns = "''nswer.webm''" and c = 7 and cs = "[8, 9]" and base_path = ex_base
        and ?now1.0 = ex_now and ?now2.0 = ex_now and ?now3.0 = ex_now and fs = ex_fs0]
      ex_request_bare_fields
    by blast
  with ex_save_defaults ex_request_bare_fields show ?thesis
    by (simp split: prod.splits save_result.splits)
qed


section \<open>Lemmas on the queries\<close>

lemma ex_later_time: "strftime_time ex_later = ''14-05-11''" by code_simp
lemma ex_later_date: "strftime_date ex_later = ''2024-06-01''" by code_simp
lemma ex_later_iso: "isoformat ex_later = ''2024-06-01T14:05:11''" by code_simp

lemma ex_save2:
  "save_video ex_base ex_later ex_later ex_later [5, 6, 7] ''sess-A'' (PInt 3) ''Second take'' ex_fs1
  = (Save_ok ''2024-06-01/sess-A/question_3_14-05-11.webm''
       ''/app/video_interviews/2024-06-01/sess-A/question_3_14-05-11.webm'' ex_meta2, ex_fs2)"
  by (simp add: save_video_def save_video_body_def create_session_folder_def
      video_filename_def metadata_filename_def ex_later_date ex_later_time ex_later_iso str_int_3
      str_nat_3 [unfolded numeral_3_eq_3] int_max_str_digits_def
      fs_eval ex_base_def ex_fs0_def ex_fs1_def ex_fs2_def ex_folder_def ex_meta2_def
      numeral_3_eq_3)



lemma path_is_dir_resolved:
  "resolve fs p = Inr q \<Longrightarrow> path_is_dir fs p = Inr (lookup fs q = Some Dir)"
  by (simp add: path_is_dir_def)























section \<open>The stages of \<open>save_video\<close>\<close>

lemma os_mkdir_errors:
  "os_mkdir fs p = (Some x, fs') \<Longrightarrow> x = ValueError_null \<or> (\<exists>n. x = OSError n)"
  by (auto simp: os_mkdir_def resolve_def split: sum.splits option.splits if_splits)

lemma mkdir_exist_ok_errors:
  "mkdir_exist_ok fs p = (Some x, fs') \<Longrightarrow> x = ValueError_null \<or> (\<exists>n. x = OSError n)"
  by (auto simp: mkdir_exist_ok_def path_is_dir_def resolve_def
      split: prod.splits option.splits exn.splits errno.splits if_splits sum.splits bool.splits
      dest: os_mkdir_errors)

lemma path_is_dir_errors:
  "path_is_dir fs p = Inl x \<Longrightarrow> \<exists>n. x = OSError n"
  by (auto simp: path_is_dir_def split: sum.splits exn.splits if_splits)

lemma mkdir_parents_errors:
  "mkdir_parents fs p = (Some x, fs') \<Longrightarrow> x = ValueError_null \<or> (\<exists>n. x = OSError n)"
proof (induction fs p arbitrary: x fs' rule: mkdir_parents.induct)
  case (1 fs p)
  obtain r0 fs0 where m: "os_mkdir fs p = (r0, fs0)" by (cases "os_mkdir fs p")
  show ?case
  proof (cases "r0 = Some (OSError ENOENT) \<and> parts p \<noteq> []")
    case False
    with "1.prems" m have "r0 = Some x \<or> path_is_dir fs0 p = Inl x"
      by (subst (asm) mkdir_parents.simps)
         (auto split: option.splits exn.splits errno.splits if_splits sum.splits bool.splits)
    with m show ?thesis by (auto dest: os_mkdir_errors path_is_dir_errors)
  next
    case True
    obtain r1 fs1 where p1: "mkdir_parents fs0 (parent p) = (r1, fs1)"
      by (cases "mkdir_parents fs0 (parent p)")
    from "1.prems" m True p1 have "r1 = Some x \<or> (\<exists>f. mkdir_exist_ok fs1 p = (Some x, f))"
      by (subst (asm) mkdir_parents.simps) (auto split: option.splits)
    then show ?thesis
    proof
      assume "r1 = Some x"
      with True m p1 show ?thesis
        using "1.IH" [of r0 fs0 "OSError ENOENT" ENOENT x fs1] by simp
    next
      assume "\<exists>f. mkdir_exist_ok fs1 p = (Some x, f)"
      then show ?thesis by (auto dest: mkdir_exist_ok_errors)
    qed
  qed
qed

lemma write_file_errors:
  "write_file fs p d = (Some x, fs') \<Longrightarrow> x = ValueError_null \<or> (\<exists>n. x = OSError n)"
  by (auto simp: write_file_def resolve_def split: sum.splits option.splits entry.splits if_splits)

lemma py_int_errors: "py_int q = Inl e \<Longrightarrow> e = ValueError_digits \<or> (\<exists>s. e = ValueError_int s)"
  by (cases q) (auto split: option.splits if_splits)

lemma py_int_format: "py_int q = Inl e \<Longrightarrow> format_error q = None"
  by (cases q) auto

lemma format_error_digits: "format_error q = Some e \<Longrightarrow> e = ValueError_digits"
  by (cases q) (auto split: if_splits)

lemma save_video_stages:
  assumes "save_video base n1 n2 n3 data sid q qt fs = (r, fs')"
  obtains
    (mkdir_failed) e where
      "mkdir_parents fs (session_dir base n1 sid) = (Some e, fs')"
      "r = Save_failed (Str_of e)"
  | (format_failed) e where
      "mkdir_parents fs (session_dir base n1 sid) = (None, fs')"
      "format_error q = Some e"
      "r = Save_failed (Str_of e)"
  | (write_failed) fs1 e where
      "mkdir_parents fs (session_dir base n1 sid) = (None, fs1)"
      "format_error q = None"
      "write_file fs1 (joinpath (session_dir base n1 sid) (video_filename q (strftime_time n2))) data
         = (Some e, fs')"
      "r = Save_failed (Str_of e)"
  | (video_only) fs1 e where
      "mkdir_parents fs (session_dir base n1 sid) = (None, fs1)"
      "format_error q = None"
      "write_file fs1 (joinpath (session_dir base n1 sid) (video_filename q (strftime_time n2))) data
         = (None, fs')"
      "py_int q = Inl e
         \<or> (\<exists>n. py_int q = Inr n) \<and>
           ((\<exists>fs2 m. write_file fs' (joinpath (session_dir base n1 sid)
               (metadata_filename q)) (utf8_encode (json_dump m)) = (Some e, fs2))
            \<or> e = ValueError_subpath)"
      "r = Save_failed (Str_of e)"
  | (both) fs1 fs2 m n where
      "mkdir_parents fs (session_dir base n1 sid) = (None, fs1)"
      "format_error q = None"
      "write_file fs1 (joinpath (session_dir base n1 sid) (video_filename q (strftime_time n2))) data
         = (None, fs2)"
      "write_file fs2 (joinpath (session_dir base n1 sid) (metadata_filename q))
         (utf8_encode (json_dump m)) = (None, fs')"
      "py_int q = Inr n"
      "save_success r"
      "m = res_metadata r"
proof -
  obtain r0 fs1 where m: "mkdir_parents fs (session_dir base n1 sid) = (r0, fs1)"
    by (cases "mkdir_parents fs (session_dir base n1 sid)")
  show ?thesis
  proof (cases r0)
    case (Some e)
    with assms m show ?thesis
      by (intro mkdir_failed [of e])
         (auto simp: save_video_def save_video_body_def create_session_folder_def Let_def)
  next
    case None
    obtain w fs2 where w: "write_file fs1
        (joinpath (session_dir base n1 sid) (video_filename q (strftime_time n2))) data = (w, fs2)"
      by (cases "write_file fs1
        (joinpath (session_dir base n1 sid) (video_filename q (strftime_time n2))) data")
    show ?thesis
    proof (cases "format_error q")
      case (Some e)
      with assms m None show ?thesis
        by (intro format_failed [of e])
           (auto simp: save_video_def save_video_body_def create_session_folder_def Let_def)
    next
    case fmt: None
    show ?thesis
    proof (cases w)
      case (Some e)
      with assms m None w fmt show ?thesis
        by (intro write_failed [of fs1 e])
           (auto simp: save_video_def save_video_body_def create_session_folder_def Let_def)
    next
      case wn: None
      show ?thesis
      proof (cases "save_success r")
        case True
        from assms True obtain g1 g2 n where
          a: "mkdir_parents fs (session_dir base n1 sid) = (None, g1)" and
          b: "write_file g1 (joinpath (session_dir base n1 sid)
                (video_filename q (strftime_time n2))) data = (None, g2)" and
          c: "write_file g2 (joinpath (session_dir base n1 sid) (metadata_filename q))
                (utf8_encode (json_dump (res_metadata r))) = (None, fs')" and
          d: "py_int q = Inr n"
          by (rule save_video_success)
        from a m have "g1 = fs1" by simp
        with b w have "g2 = fs2" by simp
        with c have "write_file fs2 (joinpath (session_dir base n1 sid) (metadata_filename q))
                (utf8_encode (json_dump (res_metadata r))) = (None, fs')" by simp
        with m None w wn True d fmt show ?thesis
          by (intro both [of fs1 fs2 "res_metadata r" n]) simp_all
      next
        case False
        have body: "save_video_body base n1 n2 n3 data sid q qt fs =
            (case py_int q of
               Inl e \<Rightarrow> (Inl e, fs2)
             | Inr n \<Rightarrow>
                 (case relative_to (joinpath (session_dir base n1 sid)
                         (video_filename q (strftime_time n2))) base of
                    Inl e \<Rightarrow> (Inl e, fs2)
                  | Inr rel \<Rightarrow>
                      (case write_file fs2 (joinpath (session_dir base n1 sid) (metadata_filename q))
                          (utf8_encode (json_dump
                             \<lparr>md_session_id = sid, md_question_number = n,
                              md_question_text = qt,
                              md_filename = video_filename q (strftime_time n2),
                              md_timestamp = isoformat n3, md_file_path = str_rel rel,
                              md_file_size = length data\<rparr>)) of
                         (Some e, fs3) \<Rightarrow> (Inl e, fs3)
                       | (None, fs3) \<Rightarrow>
                           (Inr (Save_ok (str_rel rel)
                              (str_abs (joinpath (session_dir base n1 sid)
                                 (video_filename q (strftime_time n2))))
                              \<lparr>md_session_id = sid, md_question_number = n,
                               md_question_text = qt,
                               md_filename = video_filename q (strftime_time n2),
                               md_timestamp = isoformat n3, md_file_path = str_rel rel,
                               md_file_size = length data\<rparr>), fs3))))"
          using m None w wn fmt
          by (simp add: save_video_body_def create_session_folder_def Let_def cong: sum.case_cong)
        have "\<exists>e. r = Save_failed (Str_of e) \<and> fs' = fs2 \<and>
          (py_int q = Inl e
            \<or> (\<exists>n. py_int q = Inr n) \<and>
              ((\<exists>fs3 m. write_file fs2 (joinpath (session_dir base n1 sid)
                  (metadata_filename q)) (utf8_encode (json_dump m)) = (Some e, fs3))
               \<or> e = ValueError_subpath))"
        proof (cases "py_int q")
          case (Inl e)
          with assms body have "r = Save_failed (Str_of e)" "fs' = fs2"
            by (auto simp: save_video_def)
          with Inl show ?thesis by blast
        next
          case (Inr n)
          show ?thesis
          proof (cases "relative_to (joinpath (session_dir base n1 sid)
                         (video_filename q (strftime_time n2))) base")
            case (Inl e)
            then have "e = ValueError_subpath" by (auto simp: relative_to_def split: if_splits)
            moreover from assms body Inr Inl have "r = Save_failed (Str_of e)" "fs' = fs2"
              by (auto simp: save_video_def)
            ultimately show ?thesis using Inr by blast
          next
            case rel: (Inr rel)
            let ?m = "\<lparr>md_session_id = sid, md_question_number = n,
                              md_question_text = qt,
                              md_filename = video_filename q (strftime_time n2),
                              md_timestamp = isoformat n3, md_file_path = str_rel rel,
                              md_file_size = length data\<rparr>"
            obtain w3 fs3 where w3: "write_file fs2 (joinpath (session_dir base n1 sid)
                (metadata_filename q)) (utf8_encode (json_dump ?m)) = (w3, fs3)"
              by (cases "write_file fs2 (joinpath (session_dir base n1 sid)
                (metadata_filename q)) (utf8_encode (json_dump ?m))")
            show ?thesis
            proof (cases w3)
              case None
              with assms body Inr rel w3 have "save_success r"
                by (auto simp: save_video_def)
              with False show ?thesis by simp
            next
              case (Some e)
              with w3 have "fs3 = fs2" by (auto dest: write_file_failed)
              with assms body Inr rel w3 Some have "r = Save_failed (Str_of e)" "fs' = fs2"
                by (auto simp: save_video_def)
              with w3 Some Inr show ?thesis by blast
            qed
          qed
        qed
        then obtain e where e: "r = Save_failed (Str_of e)" "fs' = fs2"
          "py_int q = Inl e
            \<or> (\<exists>n. py_int q = Inr n) \<and>
              ((\<exists>fs3 m. write_file fs2 (joinpath (session_dir base n1 sid)
                  (metadata_filename q)) (utf8_encode (json_dump m)) = (Some e, fs3))
               \<or> e = ValueError_subpath)"
          by blast
        with m None w wn fmt show ?thesis by (intro video_only [of fs1 e]) auto
      qed
    qed
    qed
  qed
qed


section \<open>Failures after the video has been written\<close>

lemma grows_files:
  "grows fs fs' \<Longrightarrow> (lookup fs' p = Some (File c)) = (lookup fs p = Some (File c))"
  unfolding grows_def by (metis entry.distinct(1) option.distinct(1) option.inject)

lemma write_file_resolved:
  assumes "write_file fs p d = (None, fs')"
  shows "\<exists>q. resolve fs' p = Inr q \<and> lookup fs' q = Some (File d)"
proof -
  from assms obtain q where q: "resolve fs p = Inr q"
    and l: "\<And>p'. lookup fs' p' = (if p' = q then Some (File d) else lookup fs p')"
    by (auto elim: write_file_ok)
  from q have "resolve fs' p = Inr q"
    by (rule resolve_mono [rotated]) (rule write_file_keeps_dirs [OF assms])
  with l show ?thesis by auto
qed

text \<open>
  C9. With a \<open>question_number\<close> that \<open>int()\<close> rejects, \<open>save_video\<close> always returns
  \<open>success: False\<close>. The error reported is that of \<open>int()\<close> exactly when the session
  folder could be made and the video file could be written; the video file, named with
  the raw \<open>question_number\<close>, is then in the file system with the bytes of the upload.
  When making the folder fails, or the folder is made and writing the video fails, the
  error reported is the \<open>str\<close> of that very exception, the file system is the one the
  failed step left, and no file has been written, changed or removed.
\<close>

theorem unconvertible_question_number:
  assumes "py_int qnum = Inl e"
  shows "\<exists>err fs'.
           save_video base_path now1 now2 now3 video_data sid qnum qtext fs = (Save_failed err, fs')
           \<and> ((err = Str_of e) =
                (\<exists>fs1 fs2. mkdir_parents fs (session_dir base_path now1 sid) = (None, fs1)
                   \<and> write_file fs1 (joinpath (session_dir base_path now1 sid)
                         (video_filename qnum (strftime_time now2))) video_data = (None, fs2)))
           \<and> (err = Str_of e \<longrightarrow>
                (\<exists>p. resolve fs' (joinpath (session_dir base_path now1 sid)
                           (video_filename qnum (strftime_time now2))) = Inr p
                     \<and> lookup fs' p = Some (File video_data)))
           \<and> (\<forall>x fs1. mkdir_parents fs (session_dir base_path now1 sid) = (Some x, fs1)
                  \<longrightarrow> err = Str_of x \<and> fs' = fs1)
           \<and> (\<forall>x fs1 fs2. mkdir_parents fs (session_dir base_path now1 sid) = (None, fs1)
                  \<and> write_file fs1 (joinpath (session_dir base_path now1 sid)
                         (video_filename qnum (strftime_time now2))) video_data = (Some x, fs2)
                  \<longrightarrow> err = Str_of x \<and> fs' = fs1)
           \<and> (err \<noteq> Str_of e \<longrightarrow>
                (\<forall>p c. (lookup fs' p = Some (File c)) = (lookup fs p = Some (File c))))"
proof -
  let ?sf = "session_dir base_path now1 sid"
  let ?fp = "joinpath ?sf (video_filename qnum (strftime_time now2))"
  obtain r fs' where s: "save_video base_path now1 now2 now3 video_data sid qnum qtext fs = (r, fs')"
    by (cases "save_video base_path now1 now2 now3 video_data sid qnum qtext fs")
  from assms have e: "e = ValueError_digits \<or> (\<exists>lit. e = ValueError_int lit)"
    by (rule py_int_errors)
  from assms have fmt: "format_error qnum = None" by (rule py_int_format)
  from s show ?thesis
  proof (cases rule: save_video_stages)
    case (mkdir_failed x)
    from mkdir_failed(1) have ne: "x \<noteq> e" using e by (auto dest: mkdir_parents_errors)
    from mkdir_failed(1) have g: "grows fs fs'" by (rule mkdir_parents_grows)
    have f: "\<forall>p c. (lookup fs' p = Some (File c)) = (lookup fs p = Some (File c))"
      using grows_files [OF g] by blast
    from ne mkdir_failed f s show ?thesis by auto
  next
    case (format_failed x)
    with fmt show ?thesis by simp
  next
    case (write_failed fs1 x)
    from write_failed(3) have ne: "x \<noteq> e" using e by (auto dest: write_file_errors)
    from write_failed(3) have eq: "fs' = fs1" by (rule write_file_failed)
    with write_failed(1) have g: "grows fs fs'" by (auto dest: mkdir_parents_grows)
    have f: "\<forall>p c. (lookup fs' p = Some (File c)) = (lookup fs p = Some (File c))"
      using grows_files [OF g] by blast
    from ne write_failed eq f s show ?thesis by auto
  next
    case (video_only fs1 x)
    with assms have x: "x = e" by auto
    from video_only(3) have "\<exists>p. resolve fs' ?fp = Inr p \<and> lookup fs' p = Some (File video_data)"
      by (rule write_file_resolved)
    with x video_only s show ?thesis by auto
  next
    case (both fs1 fs2 m n)
    with assms show ?thesis by simp
  qed
qed

lemma ex_date_folder: "session_dir ex_base ex_now ''sess-A'' = PPath False ex_folder"
  by (simp add: ex_now_date joinpath_def parse_parts_def ex_base_def ex_folder_def)

lemma ex_mkdir: "mkdir_parents ex_fs0 (PPath False ex_folder) = (None, ex_fs_folders)"
  by (simp add: fs_eval ex_fs0_def ex_folder_def ex_fs_folders_def)

lemma ex_mkdir_blocked:
  "mkdir_parents ex_fs_blocked (PPath False ex_folder) = (Some (OSError ENOTDIR), ex_fs_blocked)"
  by (simp add: fs_eval ex_fs0_def ex_folder_def ex_fs_blocked_def)

lemma ex_write_abc:
  "write_file ex_fs_folders
     (joinpath (PPath False ex_folder) (video_filename (PStr ''abc'') (strftime_time ex_now)))
     [0, 1] = (None, ex_fs_folders @ [(ex_folder @ [''question_abc_14-05-10.webm''], File [0, 1])])"
  by (simp add: video_filename_def ex_now_time fs_eval ex_fs0_def ex_folder_def ex_fs_folders_def)

lemma ex_int_abc: "py_int (PStr ''abc'') = Inl (ValueError_int ''abc'')"
  by (simp add: too_many_digits_def int_literal_def strip_space_def int_space_def is_digit_def)

theorem unconvertible_question_number_witness:
  "py_int (PStr ''abc'') = Inl (ValueError_int ''abc'')
   \<and> (\<exists>fs'. save_video ex_base ex_now ex_now ex_now [0, 1] ''sess-A'' (PStr ''abc'') [] ex_fs0
               = (Save_failed (Str_of (ValueError_int ''abc'')), fs')
          \<and> (\<exists>p. resolve fs' (joinpath (PPath False ex_folder) ''question_abc_14-05-10.webm'') = Inr p
                 \<and> lookup fs' p = Some (File [0, 1])))
   \<and> mkdir_parents ex_fs_blocked (session_dir ex_base ex_now ''sess-A'')
       = (Some (OSError ENOTDIR), ex_fs_blocked)
   \<and> save_video ex_base ex_now ex_now ex_now [0, 1] ''sess-A'' (PStr ''abc'') [] ex_fs_blocked
       = (Save_failed (Str_of (OSError ENOTDIR)), ex_fs_blocked)"
proof -
  from unconvertible_question_number [OF ex_int_abc, of ex_base ex_now ex_now ex_now "[0, 1]"
      "''sess-A''" "[]" ex_fs0]
  obtain err fs' where
    s: "save_video ex_base ex_now ex_now ex_now [0, 1] ''sess-A'' (PStr ''abc'') [] ex_fs0
          = (Save_failed err, fs')" and
    i: "(err = Str_of (ValueError_int ''abc'')) =
          (\<exists>fs1 fs2. mkdir_parents ex_fs0 (session_dir ex_base ex_now ''sess-A'') = (None, fs1)
             \<and> write_file fs1 (joinpath (session_dir ex_base ex_now ''sess-A'')
                   (video_filename (PStr ''abc'') (strftime_time ex_now))) [0, 1] = (None, fs2))" and
    f: "err = Str_of (ValueError_int ''abc'') \<longrightarrow>
          (\<exists>p. resolve fs' (joinpath (session_dir ex_base ex_now ''sess-A'')
                     (video_filename (PStr ''abc'') (strftime_time ex_now))) = Inr p
               \<and> lookup fs' p = Some (File [0, 1]))"
    by blast
  from i ex_mkdir ex_write_abc have err: "err = Str_of (ValueError_int ''abc'')"
    by (auto simp: ex_date_folder)
  with f have "\<exists>p. resolve fs' (joinpath (PPath False ex_folder) ''question_abc_14-05-10.webm'') = Inr p
                 \<and> lookup fs' p = Some (File [0, 1])"
    by (simp add: ex_date_folder video_filename_def ex_now_time)
  with s err have first:
    "\<exists>fs'. save_video ex_base ex_now ex_now ex_now [0, 1] ''sess-A'' (PStr ''abc'') [] ex_fs0
               = (Save_failed (Str_of (ValueError_int ''abc'')), fs')
          \<and> (\<exists>p. resolve fs' (joinpath (PPath False ex_folder) ''question_abc_14-05-10.webm'') = Inr p
                 \<and> lookup fs' p = Some (File [0, 1]))"
    by auto
  from unconvertible_question_number [OF ex_int_abc, of ex_base ex_now ex_now ex_now "[0, 1]"
      "''sess-A''" "[]" ex_fs_blocked]
  obtain err2 fs2' where
    s2: "save_video ex_base ex_now ex_now ex_now [0, 1] ''sess-A'' (PStr ''abc'') [] ex_fs_blocked
          = (Save_failed err2, fs2')" and
    m2: "\<forall>x fs1. mkdir_parents ex_fs_blocked (session_dir ex_base ex_now ''sess-A'') = (Some x, fs1)
            \<longrightarrow> err2 = Str_of x \<and> fs2' = fs1"
    by blast
  have b: "mkdir_parents ex_fs_blocked (session_dir ex_base ex_now ''sess-A'')
       = (Some (OSError ENOTDIR), ex_fs_blocked)"
    by (simp only: ex_date_folder ex_mkdir_blocked)
  with m2 have "err2 = Str_of (OSError ENOTDIR) \<and> fs2' = ex_fs_blocked" by blast
  with s2 have second:
    "save_video ex_base ex_now ex_now ex_now [0, 1] ''sess-A'' (PStr ''abc'') [] ex_fs_blocked
       = (Save_failed (Str_of (OSError ENOTDIR)), ex_fs_blocked)"
    by simp
  from ex_int_abc first b second show ?thesis by blast
qed

lemma ex_save_slash:
  "save_video ex_base ex_now ex_now ex_now [0, 1] ''sess-A'' (PStr ''a/b'') [] ex_fs0
     = (Save_failed (Str_of (OSError ENOENT)), ex_fs_folders)"
  by (simp add: save_video_def save_video_body_def create_session_folder_def
      video_filename_def ex_now_date ex_now_time fs_eval
      ex_base_def ex_fs0_def ex_fs_folders_def ex_folder_def)

theorem unconvertible_question_number_counterexample:
  "py_int (PStr ''a/b'') = Inl (ValueError_int ''a/b'')
   \<and> save_video ex_base ex_now ex_now ex_now [0, 1] ''sess-A'' (PStr ''a/b'') [] ex_fs0
       = (Save_failed (Str_of (OSError ENOENT)), ex_fs_folders)
   \<and> ex_fs_folders = ex_fs0 @ [([''app'', ''video_interviews'', ''2024-06-01''], Dir),
        ([''app'', ''video_interviews'', ''2024-06-01'', ''sess-A''], Dir)]"
  using ex_save_slash
  by (simp add: too_many_digits_def int_literal_def strip_space_def int_space_def is_digit_def
      ex_fs_folders_def ex_folder_def)

section \<open>What one call of \<open>save_video\<close> changes\<close>

lemma ex_save_same:
  "save_video ex_base ex_now ex_now ex_now [5, 6, 7] ''sess-A'' (PInt 3) ''Second take'' ex_fs1
  = (Save_ok ''2024-06-01/sess-A/question_3_14-05-10.webm''
       ''/app/video_interviews/2024-06-01/sess-A/question_3_14-05-10.webm'' ex_meta_same, ex_fs_same)"
  by (simp add: save_video_def save_video_body_def create_session_folder_def
      video_filename_def metadata_filename_def ex_now_date ex_now_time ex_now_iso str_int_3
      str_nat_3 [unfolded numeral_3_eq_3] int_max_str_digits_def
      fs_eval ex_base_def ex_fs0_def ex_fs1_def ex_fs_same_def ex_folder_def ex_meta_same_def
      numeral_3_eq_3)

lemma resolve_last:
  assumes "resolve fs (child sf n) = Inr p" and "n \<noteq> ''..''"
  shows "last p = n" and "p \<noteq> []"
  using resolve_snoc [OF assms] by auto

lemma video_target_name:
  assumes "CHR ''/'' \<notin> set (format_val q)"
    and "resolve fs (joinpath sf (video_filename q (strftime_time t))) = Inr p"
  shows "last p = video_filename q (strftime_time t)"
proof -
  have "joinpath sf (video_filename q (strftime_time t)) = child sf (video_filename q (strftime_time t))"
    and "video_filename q (strftime_time t) \<noteq> ''..''"
    using video_filename_props [OF assms(1) strftime_time_no_slash] by auto
  with assms(2) show ?thesis by (auto dest: resolve_last)
qed

lemma metadata_target_name:
  assumes "py_int q = Inr n"
    and "resolve fs (joinpath sf (metadata_filename q)) = Inr p"
  shows "last p = metadata_filename q"
proof -
  have "joinpath sf (metadata_filename q) = child sf (metadata_filename q)"
    and "metadata_filename q \<noteq> ''..''"
    using metadata_filename_props [OF py_int_no_slash [OF assms(1)]] by auto
  with assms(2) show ?thesis by (auto dest: resolve_last)
qed

lemma grows_cases:
  "grows fs fs' \<Longrightarrow> lookup fs' p = lookup fs p \<or> (lookup fs p = None \<and> lookup fs' p = Some Dir)"
  by (simp add: grows_def)

lemma grows_not_dir: "grows fs fs' \<Longrightarrow> lookup fs' p \<noteq> Some Dir \<Longrightarrow> lookup fs p = lookup fs' p"
  unfolding grows_def by metis

lemma save_video_changes:
  assumes "save_video base n1 n2 n3 data sid q qt fs = (r, fs')"
  shows "lookup fs' p = lookup fs p
       \<or> (lookup fs p = None \<and> lookup fs' p = Some Dir)
       \<or> (resolve fs' (joinpath (session_dir base n1 sid) (video_filename q (strftime_time n2))) = Inr p
           \<and> lookup fs' p = Some (File data) \<and> lookup fs p \<noteq> Some Dir)
       \<or> (resolve fs' (joinpath (session_dir base n1 sid) (metadata_filename q)) = Inr p
           \<and> lookup fs' p = Some (File (utf8_encode (json_dump (res_metadata r))))
           \<and> lookup fs p \<noteq> Some Dir \<and> save_success r \<and> last p = metadata_filename q)"
proof -
  let ?fp = "joinpath (session_dir base n1 sid) (video_filename q (strftime_time n2))"
  let ?mp = "joinpath (session_dir base n1 sid) (metadata_filename q)"
  from assms show ?thesis
  proof (cases rule: save_video_stages)
    case (mkdir_failed e)
    then show ?thesis by (auto dest!: mkdir_parents_grows grows_cases [where p = p])
  next
    case (format_failed e)
    then show ?thesis by (auto dest!: mkdir_parents_grows grows_cases [where p = p])
  next
    case (write_failed fs1 e)
    from write_failed(3) have "fs' = fs1" by (rule write_file_failed)
    with write_failed(1) show ?thesis
      by (auto dest!: mkdir_parents_grows grows_cases [where p = p])
  next
    case (video_only fs1 e)
    from video_only(1) have g: "grows fs fs1" by (rule mkdir_parents_grows)
    from video_only(3) obtain v where v: "resolve fs1 ?fp = Inr v" "lookup fs1 v \<noteq> Some Dir"
      and l: "\<And>p'. lookup fs' p' = (if p' = v then Some (File data) else lookup fs1 p')"
      by (auto elim: write_file_ok)
    from v(1) have rv: "resolve fs' ?fp = Inr v"
      by (rule resolve_mono [rotated]) (rule write_file_keeps_dirs [OF video_only(3)])
    show ?thesis
    proof (cases "p = v")
      case True
      from g v(2) have "lookup fs v \<noteq> Some Dir" by (auto dest: grows_not_dir)
      with True rv l show ?thesis by simp
    next
      case False
      with l have "lookup fs' p = lookup fs1 p" by simp
      with g show ?thesis by (auto dest!: grows_cases [where p = p])
    qed
  next
    case (both fs1 fs2 m n)
    from both(1) have g: "grows fs fs1" by (rule mkdir_parents_grows)
    from both(3) obtain v where v: "resolve fs1 ?fp = Inr v" "lookup fs1 v \<noteq> Some Dir"
      and l1: "\<And>p'. lookup fs2 p' = (if p' = v then Some (File data) else lookup fs1 p')"
      by (auto elim: write_file_ok)
    from both(4) obtain w where w: "resolve fs2 ?mp = Inr w" "lookup fs2 w \<noteq> Some Dir"
      and l2: "\<And>p'. lookup fs' p' = (if p' = w then Some (File (utf8_encode (json_dump m)))
                   else lookup fs2 p')"
      by (auto elim: write_file_ok)
    have k1: "\<And>x. lookup fs1 x = Some Dir \<Longrightarrow> lookup fs2 x = Some Dir"
      using both(3) by (rule write_file_keeps_dirs)
    have k2: "\<And>x. lookup fs2 x = Some Dir \<Longrightarrow> lookup fs' x = Some Dir"
      using both(4) by (rule write_file_keeps_dirs)
    from v(1) have "resolve fs2 ?fp = Inr v" by (rule resolve_mono [rotated]) (rule k1)
    then have rv: "resolve fs' ?fp = Inr v" by (rule resolve_mono [rotated]) (rule k2)
    from w(1) have rw: "resolve fs' ?mp = Inr w" by (rule resolve_mono [rotated]) (rule k2)
    have ns: "CHR ''/'' \<notin> set (format_val q)" using both(5) by (rule py_int_no_slash)
    have lv: "last v = video_filename q (strftime_time n2)"
      using ns v(1) by (rule video_target_name)
    have lw: "last w = metadata_filename q"
      using both(5) w(1) by (rule metadata_target_name)
    from lv lw have ne: "v \<noteq> w" using video_not_metadata by metis
    show ?thesis
    proof (cases "p = w")
      case True
      from w(2) l1 ne have "lookup fs1 w \<noteq> Some Dir" by (auto split: if_splits)
      with g have "lookup fs w \<noteq> Some Dir" by (auto dest: grows_not_dir)
      with True rw l2 lw both(6,7) show ?thesis by simp
    next
      case nw: False
      show ?thesis
      proof (cases "p = v")
        case True
        from g v(2) have "lookup fs v \<noteq> Some Dir" by (auto dest: grows_not_dir)
        with True rv l1 l2 ne show ?thesis by simp
      next
        case False
        with nw l1 l2 have "lookup fs' p = lookup fs1 p" by simp
        with g show ?thesis by (auto dest!: grows_cases [where p = p])
      qed
    qed
  qed
qed

text \<open>
  C5. What one call of \<open>save_video\<close> does to a path: it leaves the entry as it was, or
  makes a directory where nothing was, or the path is the one that
  \<open>session_folder / filename\<close> leads to and now holds the video bytes, or it is the one
  that \<open>session_folder / metadata_filename\<close> leads to and now holds the metadata of the
  successful call. Nothing is deleted, and a file that was there is changed only if it
  is one of these two. Without \<open>/\<close> in the \<open>question_number\<close> the video written is
  named \<open>question_<n>_<HH-MM-SS>.webm\<close>: a video written before by that name, in the same
  folder, is overwritten.
\<close>

theorem save_video_frame:
  assumes "save_video base_path now1 now2 now3 video_data sid qnum qtext fs = (r, fs')"
  shows "(lookup fs' p = lookup fs p
          \<or> (lookup fs p = None \<and> lookup fs' p = Some Dir)
          \<or> (resolve fs' (joinpath (session_dir base_path now1 sid)
                  (video_filename qnum (strftime_time now2))) = Inr p
              \<and> lookup fs' p = Some (File video_data) \<and> lookup fs p \<noteq> Some Dir
              \<and> (CHR ''/'' \<notin> set (format_val qnum) \<longrightarrow>
                    last p = video_filename qnum (strftime_time now2)))
          \<or> (resolve fs' (joinpath (session_dir base_path now1 sid) (metadata_filename qnum)) = Inr p
              \<and> lookup fs' p = Some (File (utf8_encode (json_dump (res_metadata r))))
              \<and> lookup fs p \<noteq> Some Dir \<and> save_success r \<and> last p = metadata_filename qnum))
         \<and> (lookup fs p \<noteq> None \<longrightarrow> lookup fs' p \<noteq> None)"
proof -
  from save_video_changes [OF assms, of p]
  show ?thesis by (auto dest: video_target_name)
qed

theorem save_video_frame_witness:
  "save_video ex_base ex_later ex_later ex_later [5, 6, 7] ''sess-A'' (PInt 3) ''Second take'' ex_fs1
     = (Save_ok ''2024-06-01/sess-A/question_3_14-05-11.webm''
         ''/app/video_interviews/2024-06-01/sess-A/question_3_14-05-11.webm'' ex_meta2, ex_fs2)
   \<and> lookup ex_fs1 (ex_folder @ [''question_3_14-05-10.webm'']) = Some (File [0, 1])
   \<and> lookup ex_fs2 (ex_folder @ [''question_3_14-05-10.webm'']) = Some (File [0, 1])"
proof -
  have a: "lookup ex_fs1 (ex_folder @ [''question_3_14-05-10.webm'']) = Some (File [0, 1])"
    by (simp add: lookup_def ex_fs0_def ex_fs1_def ex_folder_def)
  have n: "last (ex_folder @ [''question_3_14-05-10.webm''])
             \<noteq> video_filename (PInt 3) (strftime_time ex_later)"
    "last (ex_folder @ [''question_3_14-05-10.webm'']) \<noteq> metadata_filename (PInt 3)"
    "CHR ''/'' \<notin> set (format_val (PInt 3))"
    by (simp_all add: video_filename_def metadata_filename_def ex_later_time str_int_3)
  from save_video_frame [OF ex_save2, of "ex_folder @ [''question_3_14-05-10.webm'']"] a n
  have "lookup ex_fs2 (ex_folder @ [''question_3_14-05-10.webm'']) = Some (File [0, 1])"
    by auto
  with a ex_save2 show ?thesis by simp
qed

theorem save_video_frame_counterexample:
  "save_video ex_base ex_now ex_now ex_now [0, 1] ''sess-A'' (PInt 3) ''Tell me about yourself'' ex_fs0
     = (Save_ok ''2024-06-01/sess-A/question_3_14-05-10.webm''
         ''/app/video_interviews/2024-06-01/sess-A/question_3_14-05-10.webm'' ex_meta, ex_fs1)
   \<and> lookup ex_fs1 (ex_folder @ [''question_3_14-05-10.webm'']) = Some (File [0, 1])
   \<and> save_video ex_base ex_now ex_now ex_now [5, 6, 7] ''sess-A'' (PInt 3) ''Second take'' ex_fs1
     = (Save_ok ''2024-06-01/sess-A/question_3_14-05-10.webm''
         ''/app/video_interviews/2024-06-01/sess-A/question_3_14-05-10.webm'' ex_meta_same, ex_fs_same)
   \<and> lookup ex_fs_same (ex_folder @ [''question_3_14-05-10.webm'']) = Some (File [5, 6, 7])"
  using ex_save1 ex_save_same
  by (simp add: lookup_def ex_fs0_def ex_fs1_def ex_fs_same_def ex_folder_def)


section \<open>Two saves of the same question\<close>

lemma save_video_keeps_dirs:
  assumes "save_video base n1 n2 n3 data sid q qt fs = (r, fs')" and "lookup fs p = Some Dir"
  shows "lookup fs' p = Some Dir"
  using save_video_changes [OF assms(1), of p] assms(2) by auto

text \<open>
  C2. Two successful saves of the same session and question on the same day, whose
  times of day differ as \<open>HH-MM-SS\<close>: the two results name different files, both videos are
  in the file system afterwards with their own bytes, both calls wrote the same metadata
  path, and besides these three files the two calls only made directories. The
  metadata file holds what the second save wrote: \<open>json.load\<close> reads it as the dictionary
  of the arguments of the second call, with its question text, the name and the
  relative path of the second video, the time of its third clock reading and the number
  of its bytes.
\<close>

theorem two_saves_same_question:
  assumes s1: "save_video base_path a1 a2 a3 data1 sid qnum text1 fs = (r1, fs1)"
    and ok1: "save_success r1"
    and s2: "save_video base_path b1 b2 b3 data2 sid qnum text2 fs1 = (r2, fs2)"
    and ok2: "save_success r2"
    and day: "strftime_date a1 = strftime_date b1"
    and time: "strftime_time a2 \<noteq> strftime_time b2"
  shows "res_file_path r1 \<noteq> res_file_path r2
       \<and> (\<exists>v1 v2 m. v1 \<noteq> v2 \<and> m \<noteq> v1 \<and> m \<noteq> v2
            \<and> resolve fs2 (joinpath base_path (res_file_path r1)) = Inr v1
            \<and> lookup fs2 v1 = Some (File data1)
            \<and> resolve fs2 (joinpath base_path (res_file_path r2)) = Inr v2
            \<and> lookup fs2 v2 = Some (File data2)
            \<and> resolve fs1 (joinpath (session_dir base_path a1 sid) (metadata_filename qnum)) = Inr m
            \<and> resolve fs2 (joinpath (session_dir base_path b1 sid) (metadata_filename qnum)) = Inr m
            \<and> lookup fs2 m = Some (File (utf8_encode (json_dump (res_metadata r2))))
            \<and> (\<exists>b n. lookup fs2 m = Some (File b) \<and> py_int qnum = Inr n
                 \<and> json_load b
                     = Some [(''session_id'', JStr sid),
                        (''question_number'', JInt n),
                        (''question_text'', JStr text2),
                        (''filename'', JStr (video_filename qnum (strftime_time b2))),
                        (''timestamp'', JStr (isoformat b3)),
                        (''file_path'', JStr (res_file_path r2)),
                        (''file_size'', JInt (int (length data2)))])
            \<and> (\<forall>p. p \<noteq> v1 \<and> p \<noteq> v2 \<and> p \<noteq> m \<longrightarrow>
                  lookup fs2 p = lookup fs p \<or> (lookup fs p = None \<and> lookup fs2 p = Some Dir)))"
proof -
  let ?sf = "session_dir base_path a1 sid"
  let ?fn1 = "video_filename qnum (strftime_time a2)"
  let ?fn2 = "video_filename qnum (strftime_time b2)"
  let ?mn = "metadata_filename qnum"
  from day have sf2: "session_dir base_path b1 sid = ?sf" by simp
  from s1 ok1 obtain n where n: "py_int qnum = Inr n" by (rule save_video_success)
  then have ns: "CHR ''/'' \<notin> set (format_val qnum)" by (rule py_int_no_slash)
  have j1: "joinpath ?sf ?fn1 = child ?sf ?fn1" and j2: "joinpath ?sf ?fn2 = child ?sf ?fn2"
    using video_filename_props [OF ns strftime_time_no_slash] by auto
  have jm: "joinpath ?sf ?mn = child ?sf ?mn"
    using metadata_filename_props [OF ns] by auto
  from save_video_files [OF s1 ok1] obtain d1 where
    f1: "resolve fs1 (child ?sf ?fn1) = Inr (d1 @ [?fn1])"
        "lookup fs1 (d1 @ [?fn1]) = Some (File data1)"
        "resolve fs1 (child ?sf ?mn) = Inr (d1 @ [?mn])"
    by blast
  from save_video_files [OF s2 ok2] sf2 obtain d2 where
    f2: "resolve fs2 (child ?sf ?fn2) = Inr (d2 @ [?fn2])"
        "lookup fs2 (d2 @ [?fn2]) = Some (File data2)"
        "resolve fs2 (child ?sf ?mn) = Inr (d2 @ [?mn])"
        "lookup fs2 (d2 @ [?mn]) = Some (File (utf8_encode (json_dump (res_metadata r2))))"
    by auto
  have k: "\<And>x. lookup fs1 x = Some Dir \<Longrightarrow> lookup fs2 x = Some Dir"
    using s2 by (rule save_video_keeps_dirs)
  from f1(3) have "resolve fs2 (child ?sf ?mn) = Inr (d1 @ [?mn])"
    by (rule resolve_mono [rotated]) (rule k)
  with f2(3) have d: "d2 = d1" by simp
  from f1(1) have r1: "resolve fs2 (child ?sf ?fn1) = Inr (d1 @ [?fn1])"
    by (rule resolve_mono [rotated]) (rule k)
  from time have fne: "?fn1 \<noteq> ?fn2" by (auto dest: video_filename_inj)
  have mne: "?mn \<noteq> ?fn1" "?mn \<noteq> ?fn2" using video_not_metadata by metis+
  have p1: "joinpath base_path (res_file_path r1) = child ?sf ?fn1"
    using save_video_relative_path(1) [OF s1 ok1] .
  have p2: "joinpath base_path (res_file_path r2) = child ?sf ?fn2"
    using save_video_relative_path(1) [OF s2 ok2] sf2 by simp
  from p1 p2 fne have ne: "res_file_path r1 \<noteq> res_file_path r2" by (auto simp: child_def)
  have meta: "\<exists>b n. lookup fs2 (d1 @ [?mn]) = Some (File b) \<and> py_int qnum = Inr n
                 \<and> json_load b
                     = Some [(''session_id'', JStr sid),
                        (''question_number'', JInt n),
                        (''question_text'', JStr text2),
                        (''filename'', JStr (video_filename qnum (strftime_time b2))),
                        (''timestamp'', JStr (isoformat b3)),
                        (''file_path'', JStr (res_file_path r2)),
                        (''file_size'', JInt (int (length data2)))]"
  proof -
    from save_video_metadata [OF s2 ok2] obtain n' where
      "py_int qnum = Inr n'"
      "json_load (utf8_encode (json_dump (res_metadata r2)))
                     = Some [(''session_id'', JStr sid),
                        (''question_number'', JInt n'),
                        (''question_text'', JStr text2),
                        (''filename'', JStr (video_filename qnum (strftime_time b2))),
                        (''timestamp'', JStr (isoformat b3)),
                        (''file_path'', JStr (res_file_path r2)),
                        (''file_size'', JInt (int (length data2)))]"
      by blast
    with f2(4) d show ?thesis by auto
  qed
  have l1: "lookup fs2 (d1 @ [?fn1]) = Some (File data1)"
    using save_video_changes [OF s2, of "d1 @ [?fn1]"] f1(2) f2(1,3) sf2 j2 jm d fne mne
    by auto
  have frame: "lookup fs2 p = lookup fs p \<or> (lookup fs p = None \<and> lookup fs2 p = Some Dir)"
    if "p \<noteq> d1 @ [?fn1]" "p \<noteq> d1 @ [?fn2]" "p \<noteq> d1 @ [?mn]" for p
  proof -
    have a: "lookup fs1 p = lookup fs p \<or> (lookup fs p = None \<and> lookup fs1 p = Some Dir)"
      using save_video_changes [OF s1, of p] f1(1,3) j1 jm that by auto
    have b: "lookup fs2 p = lookup fs1 p \<or> (lookup fs1 p = None \<and> lookup fs2 p = Some Dir)"
      using save_video_changes [OF s2, of p] f2(1,3) sf2 j2 jm d that by auto
    from a b show ?thesis by auto
  qed
  have three: "\<exists>v1 v2 m. v1 \<noteq> v2 \<and> m \<noteq> v1 \<and> m \<noteq> v2
            \<and> resolve fs2 (joinpath base_path (res_file_path r1)) = Inr v1
            \<and> lookup fs2 v1 = Some (File data1)
            \<and> resolve fs2 (joinpath base_path (res_file_path r2)) = Inr v2
            \<and> lookup fs2 v2 = Some (File data2)
            \<and> resolve fs1 (joinpath (session_dir base_path a1 sid) (metadata_filename qnum)) = Inr m
            \<and> resolve fs2 (joinpath (session_dir base_path b1 sid) (metadata_filename qnum)) = Inr m
            \<and> lookup fs2 m = Some (File (utf8_encode (json_dump (res_metadata r2))))
            \<and> (\<exists>b n. lookup fs2 m = Some (File b) \<and> py_int qnum = Inr n
                 \<and> json_load b
                     = Some [(''session_id'', JStr sid),
                        (''question_number'', JInt n),
                        (''question_text'', JStr text2),
                        (''filename'', JStr (video_filename qnum (strftime_time b2))),
                        (''timestamp'', JStr (isoformat b3)),
                        (''file_path'', JStr (res_file_path r2)),
                        (''file_size'', JInt (int (length data2)))])
            \<and> (\<forall>p. p \<noteq> v1 \<and> p \<noteq> v2 \<and> p \<noteq> m \<longrightarrow>
                  lookup fs2 p = lookup fs p \<or> (lookup fs p = None \<and> lookup fs2 p = Some Dir))"
  proof (rule exI [of _ "d1 @ [?fn1]"], rule exI [of _ "d1 @ [?fn2]"],
      rule exI [of _ "d1 @ [?mn]"], intro conjI)
    show "d1 @ [?fn1] \<noteq> d1 @ [?fn2]" using fne by simp
    show "d1 @ [?mn] \<noteq> d1 @ [?fn1]" using mne by simp
    show "d1 @ [?mn] \<noteq> d1 @ [?fn2]" using mne by simp
    show "resolve fs2 (joinpath base_path (res_file_path r1)) = Inr (d1 @ [?fn1])"
      using r1 p1 by simp
    show "lookup fs2 (d1 @ [?fn1]) = Some (File data1)" by (rule l1)
    show "resolve fs2 (joinpath base_path (res_file_path r2)) = Inr (d1 @ [?fn2])"
      using f2(1) d p2 by simp
    show "lookup fs2 (d1 @ [?fn2]) = Some (File data2)" using f2(2) d by simp
    show "resolve fs1 (joinpath ?sf ?mn) = Inr (d1 @ [?mn])" using f1(3) jm by simp
    show "resolve fs2 (joinpath (session_dir base_path b1 sid) ?mn) = Inr (d1 @ [?mn])"
      using f2(3) d jm sf2 by simp
    show "lookup fs2 (d1 @ [?mn]) = Some (File (utf8_encode (json_dump (res_metadata r2))))"
      using f2(4) d by simp
    show "\<exists>b n. lookup fs2 (d1 @ [?mn]) = Some (File b) \<and> py_int qnum = Inr n
                 \<and> json_load b
                     = Some [(''session_id'', JStr sid),
                        (''question_number'', JInt n),
                        (''question_text'', JStr text2),
                        (''filename'', JStr (video_filename qnum (strftime_time b2))),
                        (''timestamp'', JStr (isoformat b3)),
                        (''file_path'', JStr (res_file_path r2)),
                        (''file_size'', JInt (int (length data2)))]"
      by (rule meta)
    show "\<forall>p. p \<noteq> d1 @ [?fn1] \<and> p \<noteq> d1 @ [?fn2] \<and> p \<noteq> d1 @ [?mn] \<longrightarrow>
                  lookup fs2 p = lookup fs p \<or> (lookup fs p = None \<and> lookup fs2 p = Some Dir)"
      using frame by blast
  qed
  from ne three show ?thesis by blast
qed

theorem two_saves_same_question_witness:
  "save_video ex_base ex_now ex_now ex_now [0, 1] ''sess-A'' (PInt 3) ''Tell me about yourself'' ex_fs0
     = (Save_ok ''2024-06-01/sess-A/question_3_14-05-10.webm''
         ''/app/video_interviews/2024-06-01/sess-A/question_3_14-05-10.webm'' ex_meta, ex_fs1)
   \<and> save_video ex_base ex_later ex_later ex_later [5, 6, 7] ''sess-A'' (PInt 3) ''Second take'' ex_fs1
     = (Save_ok ''2024-06-01/sess-A/question_3_14-05-11.webm''
         ''/app/video_interviews/2024-06-01/sess-A/question_3_14-05-11.webm'' ex_meta2, ex_fs2)
   \<and> strftime_date ex_now = strftime_date ex_later
   \<and> strftime_time ex_now \<noteq> strftime_time ex_later
   \<and> (\<exists>v1 v2 m. v1 \<noteq> v2 \<and> m \<noteq> v1 \<and> m \<noteq> v2
        \<and> lookup ex_fs2 v1 = Some (File [0, 1])
        \<and> lookup ex_fs2 v2 = Some (File [5, 6, 7])
        \<and> lookup ex_fs2 m = Some (File (utf8_encode (json_dump ex_meta2)))
        \<and> (\<exists>b. lookup ex_fs2 m = Some (File b)
             \<and> json_load b
                 = Some [(''session_id'', JStr ''sess-A''),
                         (''question_number'', JInt 3),
                         (''question_text'', JStr ''Second take''),
                         (''filename'', JStr ''question_3_14-05-11.webm''),
                         (''timestamp'', JStr ''2024-06-01T14:05:11''),
                         (''file_path'', JStr ''2024-06-01/sess-A/question_3_14-05-11.webm''),
                         (''file_size'', JInt 3)]))"
proof -
  have day: "strftime_date ex_now = strftime_date ex_later"
    by (simp add: ex_now_date ex_later_date)
  have time: "strftime_time ex_now \<noteq> strftime_time ex_later"
    by (simp add: ex_now_time ex_later_time)
  from two_saves_same_question [OF ex_save1 _ ex_save2 _ day time]
  have "\<exists>v1 v2 m. v1 \<noteq> v2 \<and> m \<noteq> v1 \<and> m \<noteq> v2
        \<and> lookup ex_fs2 v1 = Some (File [0, 1])
        \<and> lookup ex_fs2 v2 = Some (File [5, 6, 7])
        \<and> lookup ex_fs2 m = Some (File (utf8_encode (json_dump ex_meta2)))
        \<and> (\<exists>b. lookup ex_fs2 m = Some (File b)
             \<and> json_load b
                 = Some [(''session_id'', JStr ''sess-A''),
                         (''question_number'', JInt 3),
                         (''question_text'', JStr ''Second take''),
                         (''filename'', JStr ''question_3_14-05-11.webm''),
                         (''timestamp'', JStr ''2024-06-01T14:05:11''),
                         (''file_path'', JStr ''2024-06-01/sess-A/question_3_14-05-11.webm''),
                         (''file_size'', JInt 3)])"
    by (simp add: video_filename_def ex_later_time ex_later_iso str_int_3) blast
  with ex_save1 ex_save2 day time show ?thesis by simp
qed

theorem two_saves_same_question_counterexample:
  "save_video ex_base ex_now ex_now ex_now [0, 1] ''sess-A'' (PInt 3) ''Tell me about yourself'' ex_fs0
     = (Save_ok ''2024-06-01/sess-A/question_3_14-05-10.webm''
         ''/app/video_interviews/2024-06-01/sess-A/question_3_14-05-10.webm'' ex_meta, ex_fs1)
   \<and> save_video ex_base ex_now ex_now ex_now [5, 6, 7] ''sess-A'' (PInt 3) ''Second take'' ex_fs1
     = (Save_ok ''2024-06-01/sess-A/question_3_14-05-10.webm''
         ''/app/video_interviews/2024-06-01/sess-A/question_3_14-05-10.webm'' ex_meta_same, ex_fs_same)
   \<and> filter (ends_with ''.webm'') (children ex_fs_same ex_folder) = [''question_3_14-05-10.webm'']"
  using ex_save1 ex_save_same
  by (simp add: children_def ends_with_def ex_fs0_def ex_fs_same_def ex_folder_def)


end
